theory Spec2Isabelle
  imports Complex_Main "HOL-Library.Multiset" "HOL-Library.Sublist"
begin

section \<open>Data model of the matching-and-application pipeline (main.py)\<close>

text \<open>
  The pipeline of \<^verbatim>\<open>main()\<close> works on Python dictionaries. A ranked job is the
  dictionary built at lines 2498--2506, 2522--2530 and 2544--2552: the keys
  \<^verbatim>\<open>title, company, location, url, score, explanation, details\<close>, later extended by
  \<^verbatim>\<open>applied\<close> (bulk apply) and \<^verbatim>\<open>eligibility_reason\<close>. The nested \<^verbatim>\<open>details\<close>
  dictionary is the job record of \<^verbatim>\<open>job_details\<close>; the pipeline reads its keys
  \<^verbatim>\<open>job_description\<close> (with the fallbacks \<^verbatim>\<open>description\<close> and \<^verbatim>\<open>desc\<close>, one field
  here), \<^verbatim>\<open>role, company_name, location, url, apply_type\<close> and writes
  \<^verbatim>\<open>application_method\<close>. A key that may be missing is an \<open>option\<close>.
  Scores are Python numbers; they are modelled as exact reals.

  The \<^verbatim>\<open>details\<close> dictionary is held by reference: \<^verbatim>\<open>"details": job\<close> stores the very
  object \<^verbatim>\<open>job_details[job_id]\<close>, so two ranked jobs built from the same job record
  share one dictionary. \<open>details_id\<close> is the identity of that object (for a list built
  by \<^verbatim>\<open>main\<close>, the job id); \<open>details\<close> is its content as seen through this ranked job.
  A write to the dictionary is made through every ranked job that holds it (see
  \<open>store_method\<close> below), so holders of one object always show the same content.
\<close>

record job_details =
  job_description :: "string option"
  role :: "string option"
  company_name :: "string option"
  job_location :: "string option"
  job_url :: "string option"
  apply_type :: "string option"
  application_method :: "string option"

record ranked_job =
  title :: string
  company :: string
  location :: string
  url :: string
  score :: real
  explanation :: string
  details :: job_details
  details_id :: nat
  applied :: "bool option"
  eligibility_reason :: "string option"

text \<open>\<^verbatim>\<open>d.get(key, default)\<close> on an optional key.\<close>

definition get_default :: "'a option \<Rightarrow> 'a \<Rightarrow> 'a" where
  "get_default v d = (case v of None \<Rightarrow> d | Some x \<Rightarrow> x)"

section \<open>Strings\<close>

text \<open>
  A Python string is modelled by its UTF-8 bytes. \<^verbatim>\<open>str.lower()\<close> is Unicode-aware and
  is not defined here: every function that calls it takes it as the parameter
  \<open>str_lower\<close>, and every property below holds whatever that function is. Only the
  instances need a concrete function; their strings are ASCII, where \<^verbatim>\<open>str.lower()\<close>
  maps A--Z to a--z and keeps every other character, which is \<open>ascii_lower\<close>.
\<close>

definition ascii_lower_char :: "char \<Rightarrow> char" where
  "ascii_lower_char c =
     (let n = (of_char c :: nat) in if 65 \<le> n \<and> n \<le> 90 then char_of (n + 32) else c)"

definition ascii_lower :: "string \<Rightarrow> string" where
  "ascii_lower s = map ascii_lower_char s"

text \<open>
  \<^verbatim>\<open>needle in haystack\<close> on strings: \<open>needle\<close> occurs as a contiguous substring. On
  UTF-8 bytes this is the same as on code points.
\<close>

fun str_in :: "string \<Rightarrow> string \<Rightarrow> bool" where
  "str_in needle [] = (needle = [])"
| "str_in needle (c # cs) = (prefix needle (c # cs) \<or> str_in needle cs)"

text \<open>Decimal rendering of a natural number, as an f-string \<^verbatim>\<open>{bonus}\<close> prints it.\<close>

definition digit_char :: "nat \<Rightarrow> char" where
  "digit_char d = char_of (48 + d)"

function str_nat :: "nat \<Rightarrow> string" where
  "str_nat n = (if n < 10 then [digit_char n] else str_nat (n div 10) @ [digit_char (n mod 10)])"
  by pat_completeness auto
termination
  by (relation "measure id") auto

declare str_nat.simps [simp del]

section \<open>Ranker: role-match bonus and sort (lines 2567--2591)\<close>

text \<open>
  \<^verbatim>\<open>
  for role in user_roles:
      if role.lower() in job_role:
          role_match = True
          role_match_score += 1
  \<close>
  The flag \<^verbatim>\<open>role_match\<close> is set exactly when the counter was incremented, so it is
  \<open>0 < role_match_score\<close>.
\<close>

primrec role_match_score :: "(string \<Rightarrow> string) \<Rightarrow> string list \<Rightarrow> string \<Rightarrow> nat" where
  "role_match_score str_lower [] job_role = 0"
| "role_match_score str_lower (r # rs) job_role =
     (if str_in (str_lower r) job_role then 1 else 0) + role_match_score str_lower rs job_role"

text \<open>
  \<^verbatim>\<open>
  if role_match:
      original_score = job["score"]
      bonus = min(role_match_score, 2)
      job["score"] = min(original_score + bonus, 10)  # Cap at 10
      job["explanation"] = f"Role match bonus: +{bonus}. " + job.get("explanation", "")
  \<close>
\<close>

definition prioritize_job ::
  "(string \<Rightarrow> string) \<Rightarrow> string list \<Rightarrow> ranked_job \<Rightarrow> ranked_job" where
  "prioritize_job str_lower user_roles job =
     (let job_role = str_lower (title job);
          n = role_match_score str_lower user_roles job_role
      in if 0 < n then
           (let original_score = score job;
                bonus = min n 2
            in job\<lparr>score := min (original_score + real bonus) 10,
                   explanation := ''Role match bonus: +'' @ str_nat bonus @ ''. '' @ explanation job\<rparr>)
         else job)"

text \<open>\<^verbatim>\<open>if user_roles: for job in ranked_jobs: ...\<close>\<close>

definition prioritize_jobs ::
  "(string \<Rightarrow> string) \<Rightarrow> string list \<Rightarrow> ranked_job list \<Rightarrow> ranked_job list" where
  "prioritize_jobs str_lower user_roles ranked_jobs =
     (if user_roles \<noteq> [] then map (prioritize_job str_lower user_roles) ranked_jobs
      else ranked_jobs)"

text \<open>
  \<^verbatim>\<open>list.sort(key=..., reverse=True)\<close>. CPython keeps a reverse sort stable by
  reversing the list, running its stable ascending sort and reversing the result;
  \<^const>\<open>sort_key\<close> is a stable ascending sort.
\<close>

definition py_sort_reverse :: "('a \<Rightarrow> 'k::linorder) \<Rightarrow> 'a list \<Rightarrow> 'a list" where
  "py_sort_reverse key xs = rev (sort_key key (rev xs))"

text \<open>Lines 2567--2591 together: the bonus pass, then \<^verbatim>\<open>ranked_jobs.sort(...)\<close>.\<close>

definition rank_jobs ::
  "(string \<Rightarrow> string) \<Rightarrow> string list \<Rightarrow> ranked_job list \<Rightarrow> ranked_job list" where
  "rank_jobs str_lower user_roles ranked_jobs =
     py_sort_reverse score (prioritize_jobs str_lower user_roles ranked_jobs)"

section \<open>Building the ranked list from the scoring results (lines 2493--2555)\<close>

text \<open>
  Every scoring back-end hands back a list of \<^verbatim>\<open>(job_id, score, explanation)\<close>
  tuples, where \<^verbatim>\<open>score\<close> may be \<^verbatim>\<open>None\<close>. \<^verbatim>\<open>job_details\<close> is the dictionary of job
  records keyed by job id.
\<close>

type_synonym scoring_result = "nat \<times> real option \<times> string"

definition make_ranked_job :: "nat \<Rightarrow> job_details \<Rightarrow> real \<Rightarrow> string \<Rightarrow> ranked_job" where
  "make_ranked_job job_id job sc expl =
     \<lparr>title = get_default (role job) ''Unknown'',
      company = get_default (company_name job) ''Unknown'',
      location = get_default (job_location job) ''Unknown'',
      url = get_default (job_url job) [],
      score = sc,
      explanation = expl,
      details = job,
      details_id = job_id,
      applied = None,
      eligibility_reason = None\<rparr>"

text \<open>
  \<^verbatim>\<open>
  for job_id, score, explanation in results:
      if score is None:
          logger.warning(...)
          continue
      if job_id in job_details:
          ranked_jobs.append({...})
      else:
          logger.warning(...)
  \<close>
  The loop of lines 2495--2509 (\<^verbatim>\<open>if score is not None and job_id in job_details\<close>)
  appends in exactly the same cases.
\<close>

fun append_scored ::
  "(nat \<rightharpoonup> job_details) \<Rightarrow> scoring_result list \<Rightarrow> ranked_job list \<Rightarrow> ranked_job list" where
  "append_scored job_dict [] ranked_jobs = ranked_jobs"
| "append_scored job_dict ((job_id, sc, expl) # results) ranked_jobs =
     (case sc of
        None \<Rightarrow> append_scored job_dict results ranked_jobs
      | Some s \<Rightarrow>
          (case job_dict job_id of
             Some job \<Rightarrow>
               append_scored job_dict results (ranked_jobs @ [make_ranked_job job_id job s expl])
           | None \<Rightarrow> append_scored job_dict results ranked_jobs))"

text \<open>
  For the matching methods "1" and "2" the list is empty when line 2512 is reached.
  Every other answer takes the keyword branch, which has already filled
  \<^verbatim>\<open>ranked_jobs\<close> at lines 2494--2509 and then runs the loop of lines 2536--2555 on top.
\<close>

definition build_ranked_jobs ::
  "string \<Rightarrow> (nat \<rightharpoonup> job_details) \<Rightarrow> scoring_result list \<Rightarrow> ranked_job list" where
  "build_ranked_jobs match_method job_dict results =
     (if match_method = ''1'' \<or> match_method = ''2''
      then append_scored job_dict results []
      else append_scored job_dict results (append_scored job_dict results []))"

section \<open>Calling the scoring back-ends (lines 2283--2555)\<close>

text \<open>
  The scoring back-ends are external delegates. \<^verbatim>\<open>main\<close> calls them outside any
  \<^verbatim>\<open>try\<close> block: a call either returns, or raises an exception that nothing in
  \<^verbatim>\<open>main\<close> catches. The same type describes how the scoring stage of \<^verbatim>\<open>main\<close> itself
  ends.
\<close>

datatype 'a call = Raised | Returned 'a

text \<open>
  \<open>quick_match_score\<close> is called once per job and is given by job id; \<open>str_score\<close> is
  the text that the f-string \<^verbatim>\<open>{score}\<close> prints for a score.
\<close>

record scorers =
  initialize_model :: "unit call"
  batch_process_jobs :: "scoring_result list call"
  two_stage_job_matching :: "scoring_result list call"
  quick_match_score :: "nat \<Rightarrow> real option call"
  str_score :: "real option \<Rightarrow> string"

text \<open>
  The keyword branch (lines 2462--2489) over \<^verbatim>\<open>job_details.items()\<close>:
  \<^verbatim>\<open>
  for job_id, job in job_details.items():
      job_desc = job.get("job_description", "") or job.get("description", "") or ...
      if job_desc:
          score = quick_match_score(resume_skills_text, job_desc, job_skills)
          explanation = f"Matched {score} out of 10 keywords with your resume"
          results.append((job_id, score, explanation))
      else:
          print(...)
  \<close>
\<close>

fun keyword_results ::
  "scorers \<Rightarrow> (nat \<times> job_details) list \<Rightarrow> scoring_result list \<Rightarrow> scoring_result list call" where
  "keyword_results sc [] results = Returned results"
| "keyword_results sc ((job_id, job) # items) results =
     (if get_default (job_description job) [] \<noteq> [] then
        (case quick_match_score sc job_id of
           Raised \<Rightarrow> Raised
         | Returned s \<Rightarrow>
             keyword_results sc items
               (results @ [(job_id, s,
                  ''Matched '' @ str_score sc s @ '' out of 10 keywords with your resume'')]))
      else keyword_results sc items results)"

text \<open>
  \<^verbatim>\<open>
  if match_method == "1":
      initialize_model()
      results = batch_process_jobs(resume_skills_text, job_desc_tuples, with_explanations=True)
  elif match_method == "2":
      results = two_stage_job_matching(...)
  else:
      ... the keyword branch ...
  \<close>
\<close>

definition scoring_results ::
  "scorers \<Rightarrow> string \<Rightarrow> (nat \<times> job_details) list \<Rightarrow> scoring_result list call" where
  "scoring_results sc match_method items =
     (if match_method = ''1'' then
        (case initialize_model sc of Raised \<Rightarrow> Raised | Returned u \<Rightarrow> batch_process_jobs sc)
      else if match_method = ''2'' then two_stage_job_matching sc
      else keyword_results sc items [])"

text \<open>
  The scoring stage of \<^verbatim>\<open>main\<close>: the results of the chosen back-end, turned into the
  ranked list. \<open>items\<close> is \<^verbatim>\<open>job_details.items()\<close>, the dictionary in its own order.
\<close>

definition score_jobs ::
  "scorers \<Rightarrow> string \<Rightarrow> (nat \<times> job_details) list \<Rightarrow> ranked_job list call" where
  "score_jobs sc match_method items =
     (case scoring_results sc match_method items of
        Raised \<Rightarrow> Raised
      | Returned results \<Rightarrow> Returned (build_ranked_jobs match_method (map_of items) results))"

section \<open>Company-site filter and eligibility gate (lines 2557--2669)\<close>

text \<open>
  \<^verbatim>\<open>
  if filter_company_site:
      ranked_jobs = [job for job in ranked_jobs
                     if job.get("details", {}).get("apply_type", "") != "company_site"]
  \<close>
\<close>

definition filter_company_site_jobs :: "bool \<Rightarrow> ranked_job list \<Rightarrow> ranked_job list" where
  "filter_company_site_jobs filter_company_site ranked_jobs =
     (if filter_company_site
      then filter (\<lambda>job. get_default (apply_type (details job)) [] \<noteq> ''company_site'') ranked_jobs
      else ranked_jobs)"

text \<open>
  Modelled from the spec: \<^verbatim>\<open>check_job_eligibility\<close> is imported from
  \<^verbatim>\<open>stages/llm_matcher/keyword_matcher.py\<close>, which is not among the sources. Section 4.2
  of the specification gives its policy: a score below \<^verbatim>\<open>min_score\<close> together with no
  role/skill token overlap makes the job ineligible, otherwise it is eligible, and the
  reason names the deciding clause. How token overlap is computed is not specified; it is
  the parameter \<open>has_overlap\<close>.
\<close>

definition check_job_eligibility ::
  "(ranked_job \<Rightarrow> string list \<Rightarrow> string list \<Rightarrow> bool) \<Rightarrow>
   ranked_job \<Rightarrow> string list \<Rightarrow> real \<Rightarrow> string list \<Rightarrow> bool \<times> string" where
  "check_job_eligibility has_overlap job user_roles min_score search_skills =
     (if score job < min_score \<and> \<not> has_overlap job user_roles search_skills
      then (False, ''score below min_score and no role/skill overlap'')
      else (True, ''score or role/skill overlap''))"

text \<open>
  \<^verbatim>\<open>
  for job in ranked_jobs:
      is_eligible, reason = check_job_eligibility(job, user_roles, min_score=5.0,
                                                  search_skills=search_skills)
      if is_eligible:
          eligible_jobs.append(job)
          job["eligibility_reason"] = reason
      else:
          ineligible_jobs.append(job)
  \<close>
  The result is the pair \<^verbatim>\<open>(eligible_jobs, ineligible_jobs)\<close>.
\<close>

fun split_eligible ::
  "(ranked_job \<Rightarrow> string list \<Rightarrow> string list \<Rightarrow> bool) \<Rightarrow> string list \<Rightarrow> string list \<Rightarrow>
   ranked_job list \<Rightarrow> ranked_job list \<times> ranked_job list" where
  "split_eligible has_overlap user_roles search_skills [] = ([], [])"
| "split_eligible has_overlap user_roles search_skills (job # ranked_jobs) =
     (let (eligible_jobs, ineligible_jobs) =
            split_eligible has_overlap user_roles search_skills ranked_jobs;
          (is_eligible, reason) =
            check_job_eligibility has_overlap job user_roles 5 search_skills
      in if is_eligible
         then (job\<lparr>eligibility_reason := Some reason\<rparr> # eligible_jobs, ineligible_jobs)
         else (eligible_jobs, job # ineligible_jobs))"

text \<open>Lines 2557--2669 in order: filter, bonus, sort, gate; \<^verbatim>\<open>ranked_jobs = filtered_jobs\<close>.\<close>

definition select_jobs ::
  "(string \<Rightarrow> string) \<Rightarrow> bool \<Rightarrow> (ranked_job \<Rightarrow> string list \<Rightarrow> string list \<Rightarrow> bool) \<Rightarrow>
   string list \<Rightarrow> string list \<Rightarrow> ranked_job list \<Rightarrow> ranked_job list" where
  "select_jobs str_lower filter_company_site has_overlap user_roles search_skills ranked_jobs =
     fst (split_eligible has_overlap user_roles search_skills
            (rank_jobs str_lower user_roles
               (filter_company_site_jobs filter_company_site ranked_jobs)))"

section \<open>Apply phase (lines 2682--3001)\<close>

subsection \<open>Arguments and external actors\<close>

datatype run_mode = Full | Parse | Search | Match | Apply

record args =
  mode :: run_mode
  apply_flag :: bool
  auto_apply :: bool

text \<open>
  What \<^verbatim>\<open>load_json(results_file)\<close> yields inside \<^verbatim>\<open>apply_to_multiple_jobs\<close>:
  \<^verbatim>\<open>None\<close>, a JSON value that is not a list, or a list of job dictionaries written by
  the bulk-apply worker.
\<close>

datatype loaded_results = JNone | JNotList | JList "ranked_job list"

text \<open>
  One per-job run of the chatbot subprocess inside the \<^verbatim>\<open>try\<close> block of the regular
  loop. An exception can be raised before \<^verbatim>\<open>subprocess.run\<close> is reached (writing the
  temporary user data file), by \<^verbatim>\<open>subprocess.run\<close> itself, or by the database
  bookkeeping after the outcome has been appended; otherwise the process exits with a
  return code and its captured output.
\<close>

datatype attempt =
    RaisedBeforeCall
  | RaisedInCall
  | Exited int string bool

text \<open>
  The external actors of one run. \<open>run_naukri_chatbot i k\<close> is what call number
  \<open>k\<close> of the subprocess for the job at loop index \<open>i\<close> would do; \<open>entropy i\<close> is the
  random source read at loop index \<open>i\<close>.
\<close>

record env =
  start_browser :: bool
  ensure_logged_in :: bool
  load_results :: loaded_results
  run_naukri_chatbot :: "nat \<Rightarrow> nat \<Rightarrow> attempt"
  entropy :: "nat \<Rightarrow> nat"

text \<open>\<^verbatim>\<open>random.randint(a, b)\<close>: an integer between \<open>a\<close> and \<open>b\<close>, both included.\<close>

definition randint :: "int \<Rightarrow> int \<Rightarrow> nat \<Rightarrow> int" where
  "randint a b r = a + int (r mod nat (b - a + 1))"

text \<open>
  The three result lists of the apply phase, with the number of subprocess calls made
  and the waiting times slept between applications.
\<close>

record apply_state =
  applied_jobs :: "ranked_job list"
  failed_jobs :: "ranked_job list"
  skipped_jobs :: "ranked_job list"
  connector_calls :: nat
  sleeps :: "int list"

definition init_state :: apply_state where
  "init_state = \<lparr>applied_jobs = [], failed_jobs = [], skipped_jobs = [],
                 connector_calls = 0, sleeps = []\<rparr>"

subsection \<open>Bulk mode (lines 222--283 and 2691--2747)\<close>

text \<open>
  \<^verbatim>\<open>
  results = load_json(results_file)
  if not results or not isinstance(results, list):
      for job in job_queue:
          job["applied"] = False
      return job_queue
  return results
  \<close>
\<close>

definition apply_to_multiple_jobs :: "ranked_job list \<Rightarrow> loaded_results \<Rightarrow> ranked_job list" where
  "apply_to_multiple_jobs job_queue loaded =
     (case loaded of
        JList results \<Rightarrow>
          if results = [] then map (\<lambda>job. job\<lparr>applied := Some False\<rparr>) job_queue else results
      | _ \<Rightarrow> map (\<lambda>job. job\<lparr>applied := Some False\<rparr>) job_queue)"

text \<open>
  \<^verbatim>\<open>
  direct_apply_jobs = [job for job in ranked_jobs
                       if job.get("details", {}).get("apply_type", "") in ["naukri", "direct"]]
  if direct_apply_jobs:
      results = apply_to_multiple_jobs(job_queue=direct_apply_jobs, ...)
      if results:
          applied_jobs = [job for job in results if job.get("applied", False)]
          failed_jobs = [job for job in results if not job.get("applied", False)]
          skipped_jobs = []
      else:
          applied_jobs = []; failed_jobs = direct_apply_jobs; skipped_jobs = []
  else:
      applied_jobs = []; failed_jobs = []; skipped_jobs = ranked_jobs
  \<close>
  \<^verbatim>\<open>apply_to_multiple_jobs\<close> always returns a list, so the branch for a result that
  is not a list (lines 2729--2734) has no counterpart. The worker is one subprocess call.
\<close>

definition direct_apply_jobs :: "ranked_job list \<Rightarrow> ranked_job list" where
  "direct_apply_jobs ranked_jobs =
     filter (\<lambda>job. get_default (apply_type (details job)) [] \<in> set [''naukri'', ''direct''])
       ranked_jobs"

definition bulk_apply :: "env \<Rightarrow> ranked_job list \<Rightarrow> apply_state" where
  "bulk_apply e ranked_jobs =
     (let direct = direct_apply_jobs ranked_jobs
      in if direct \<noteq> [] then
           (let results = apply_to_multiple_jobs direct (load_results e)
            in if results \<noteq> [] then
                 \<lparr>applied_jobs = filter (\<lambda>job. get_default (applied job) False) results,
                  failed_jobs = filter (\<lambda>job. \<not> get_default (applied job) False) results,
                  skipped_jobs = [],
                  connector_calls = 1, sleeps = []\<rparr>
               else
                 \<lparr>applied_jobs = [], failed_jobs = direct, skipped_jobs = [],
                  connector_calls = 1, sleeps = []\<rparr>)
         else
           \<lparr>applied_jobs = [], failed_jobs = [], skipped_jobs = ranked_jobs,
            connector_calls = 0, sleeps = []\<rparr>)"

subsection \<open>Regular mode: one subprocess per job (lines 2761--2899)\<close>

text \<open>
  \<^verbatim>\<open>
  apply_method = None
  if "using chatbot" in process.stdout:    apply_method = "chatbot"
  elif "using direct" in process.stdout:   apply_method = "direct"
  elif "already applied" in process.stdout: apply_method = "already_applied"
  \<close>
\<close>

definition parse_apply_method :: "string \<Rightarrow> string option" where
  "parse_apply_method stdout =
     (if str_in ''using chatbot'' stdout then Some ''chatbot''
      else if str_in ''using direct'' stdout then Some ''direct''
      else if str_in ''already applied'' stdout then Some ''already_applied''
      else None)"

text \<open>
  \<^verbatim>\<open>if apply_method: job["details"]["application_method"] = apply_method\<close>

  The assignment changes the dictionary object in place. \<open>store_method apply_method d\<close>
  is its effect on one ranked job, where \<open>d\<close> is the identity of the dictionary written
  to: a job that holds this dictionary shows the new method, any other job is unchanged,
  and nothing is written when no method was parsed.
\<close>

definition store_method :: "string option \<Rightarrow> nat \<Rightarrow> ranked_job \<Rightarrow> ranked_job" where
  "store_method apply_method d job =
     (case apply_method of
        None \<Rightarrow> job
      | Some m \<Rightarrow>
          if details_id job = d
          then job\<lparr>details := (details job)\<lparr>application_method := Some m\<rparr>\<rparr>
          else job)"

text \<open>
  The body of the loop for the job at index \<open>i\<close>. With \<^verbatim>\<open>args.apply\<close> the subprocess
  is run once; \<^verbatim>\<open>success = process.returncode == 0\<close> puts the job on
  \<^verbatim>\<open>applied_jobs\<close> or on \<^verbatim>\<open>failed_jobs\<close>. Any exception inside the \<^verbatim>\<open>try\<close> block is
  caught by \<^verbatim>\<open>except Exception\<close>, which appends the job to \<^verbatim>\<open>failed_jobs\<close> and skips
  the wait. Without \<^verbatim>\<open>args.apply\<close> the application is only simulated.

  The method is written before the job is appended, and the write is seen through the
  jobs already on the three lists.
\<close>

definition apply_one :: "env \<Rightarrow> bool \<Rightarrow> nat \<Rightarrow> ranked_job \<Rightarrow> apply_state \<Rightarrow> apply_state" where
  "apply_one e do_apply i job st =
     (if do_apply then
        (case run_naukri_chatbot e i 0 of
           RaisedBeforeCall \<Rightarrow> st\<lparr>failed_jobs := failed_jobs st @ [job]\<rparr>
         | RaisedInCall \<Rightarrow>
             st\<lparr>failed_jobs := failed_jobs st @ [job],
                connector_calls := connector_calls st + 1\<rparr>
         | Exited returncode stdout bookkeeping_raises \<Rightarrow>
             (let write = store_method (parse_apply_method stdout) (details_id job);
                  job' = write job;
                  st1 = st\<lparr>applied_jobs := map write (applied_jobs st),
                          failed_jobs := map write (failed_jobs st),
                          skipped_jobs := map write (skipped_jobs st),
                          connector_calls := connector_calls st + 1\<rparr>;
                  st2 = (if returncode = 0
                         then st1\<lparr>applied_jobs := applied_jobs st1 @ [job']\<rparr>
                         else st1\<lparr>failed_jobs := failed_jobs st1 @ [job']\<rparr>)
              in if bookkeeping_raises
                 then st2\<lparr>failed_jobs := failed_jobs st2 @ [job']\<rparr>
                 else st2\<lparr>sleeps := sleeps st2 @ [randint 5 10 (entropy e i)]\<rparr>))
      else st\<lparr>applied_jobs := applied_jobs st @ [job],
              sleeps := sleeps st @ [randint 5 10 (entropy e i)]\<rparr>)"

text \<open>
  The same write as seen through a job that is still waiting in \<^verbatim>\<open>ranked_jobs\<close>.
\<close>

definition pending_write :: "env \<Rightarrow> bool \<Rightarrow> nat \<Rightarrow> ranked_job \<Rightarrow> ranked_job \<Rightarrow> ranked_job" where
  "pending_write e do_apply i job =
     (if do_apply then
        (case run_naukri_chatbot e i 0 of
           Exited returncode stdout bookkeeping_raises \<Rightarrow>
             store_method (parse_apply_method stdout) (details_id job)
         | _ \<Rightarrow> id)
      else id)"

text \<open>\<^verbatim>\<open>for i, job in enumerate(ranked_jobs): ...\<close>\<close>

fun apply_each ::
  "env \<Rightarrow> bool \<Rightarrow> nat \<Rightarrow> ranked_job list \<Rightarrow> apply_state \<Rightarrow> apply_state" where
  "apply_each e do_apply i [] st = st"
| "apply_each e do_apply i (job # jobs) st =
     apply_each e do_apply (Suc i) (map (pending_write e do_apply i job) jobs)
       (apply_one e do_apply i job st)"

definition regular_apply :: "env \<Rightarrow> bool \<Rightarrow> ranked_job list \<Rightarrow> apply_state" where
  "regular_apply e do_apply ranked_jobs = apply_each e do_apply 0 ranked_jobs init_state"

text \<open>
  Ranked jobs that hold the same details dictionary show the same content.
\<close>

definition shares_consistently :: "ranked_job list \<Rightarrow> bool" where
  "shares_consistently jobs =
     (\<forall>a \<in> set jobs. \<forall>b \<in> set jobs. details_id a = details_id b \<longrightarrow> details a = details b)"

text \<open>
  What the first attempt for a job amounts to, in the words of the properties below:
  whether the subprocess was called, whether the attempt completed without an exception
  (so that the pause follows), whether it puts the job on the applied list, and how many
  times it puts the job on the failed list.
\<close>

fun attempt_calls :: "attempt \<Rightarrow> bool" where
  "attempt_calls RaisedBeforeCall = False"
| "attempt_calls RaisedInCall = True"
| "attempt_calls (Exited returncode stdout bookkeeping_raises) = True"

fun attempt_completes :: "attempt \<Rightarrow> bool" where
  "attempt_completes (Exited returncode stdout bookkeeping_raises) = (\<not> bookkeeping_raises)"
| "attempt_completes _ = False"

fun attempt_succeeds :: "attempt \<Rightarrow> bool" where
  "attempt_succeeds (Exited returncode stdout bookkeeping_raises) = (returncode = 0)"
| "attempt_succeeds _ = False"

fun attempt_failures :: "attempt \<Rightarrow> nat" where
  "attempt_failures (Exited returncode stdout bookkeeping_raises) =
     (if returncode = 0 then 0 else 1) + (if bookkeeping_raises then 1 else 0)"
| "attempt_failures _ = 1"

subsection \<open>Report and the phase as a whole (lines 2682--2687, 2756--2759, 2914--2963)\<close>

record report_entry =
  entry_title :: string
  entry_company :: string
  entry_location :: string
  entry_score :: real
  entry_url :: string
  entry_apply_type :: string
  entry_application_method :: string

definition report_entry_of :: "ranked_job \<Rightarrow> report_entry" where
  "report_entry_of job =
     \<lparr>entry_title = title job, entry_company = company job, entry_location = location job,
      entry_score = score job, entry_url = url job,
      entry_apply_type = get_default (apply_type (details job)) ''unknown'',
      entry_application_method = get_default (application_method (details job)) ''unknown''\<rparr>"

record report =
  applied_count :: nat
  failed_count :: nat
  skipped_count :: nat
  report_applied_jobs :: "report_entry list"
  report_failed_jobs :: "report_entry list"
  report_skipped_jobs :: "report_entry list"

text \<open>
  The report dictionary of lines 2918--2959, without its timestamp. Each list entry is
  built from the keys of the job; every ranked job of the model has them all. It is
  built after the loop, so it shows the last method written to each details dictionary.
\<close>

definition make_report :: "apply_state \<Rightarrow> report" where
  "make_report st =
     \<lparr>applied_count = length (applied_jobs st),
      failed_count = length (failed_jobs st),
      skipped_count = length (skipped_jobs st),
      report_applied_jobs = map report_entry_of (applied_jobs st),
      report_failed_jobs = map report_entry_of (failed_jobs st),
      report_skipped_jobs = map report_entry_of (skipped_jobs st)\<rparr>"

text \<open>
  \<^verbatim>\<open>
  if (args.mode in ['full', 'apply', 'match'] and (args.apply or args.auto_apply)) and ranked_jobs:
  \<close>
\<close>

definition reaches_apply_phase :: "args \<Rightarrow> ranked_job list \<Rightarrow> bool" where
  "reaches_apply_phase a ranked_jobs =
     ((mode a = Full \<or> mode a = Apply \<or> mode a = Match)
      \<and> (apply_flag a \<or> auto_apply a) \<and> ranked_jobs \<noteq> [])"

text \<open>
  The phase returns the exit code of \<^verbatim>\<open>main\<close> and the report, when one was made.
  Exceptions that no handler of \<^verbatim>\<open>main\<close> catches (opening the page, the bulk
  worker's files) are outside the model.
  \<^verbatim>\<open>
  if not job_applier.start_browser():
      logger.error("Failed to start browser"); return 1
  try:
      if args.auto_apply: ... bulk mode ...
      else:
          if not job_applier.ensure_logged_in(page, "naukri"):
              logger.error("Failed to log in to Naukri"); return 1
          ... regular mode ...
      report = {...}; save_json(report, report_file)
  finally:
      job_applier.close_browser()
  return 0
  \<close>
\<close>

definition apply_phase :: "env \<Rightarrow> args \<Rightarrow> ranked_job list \<Rightarrow> int \<times> report option" where
  "apply_phase e a ranked_jobs =
     (if reaches_apply_phase a ranked_jobs then
        (if \<not> start_browser e then (1, None)
         else if auto_apply a then (0, Some (make_report (bulk_apply e ranked_jobs)))
         else if \<not> ensure_logged_in e then (1, None)
         else (0, Some (make_report (regular_apply e (apply_flag a) ranked_jobs))))
      else (0, None))"

section \<open>Selenium search: the stage after the filters (lines 733--884)\<close>

text \<open>
  The browser is an external actor. For the stage after the industry and department
  filters only two of its answers matter: the job cards found on a page, each with the
  \<^verbatim>\<open>href\<close> of its title link when one of the title selectors yields one, and what
  happens when the Next button is looked up and clicked.
\<close>

datatype next_click = NoNextButton | NextClicked | NextRaises

record browser =
  job_cards :: "nat \<Rightarrow> string option list"
  click_next :: "nat \<Rightarrow> next_click"

text \<open>The observable steps of the stage; \<open>Sleep n\<close> is \<^verbatim>\<open>time.sleep(n)\<close>, in seconds.\<close>

datatype event = Sleep nat | SaveScreenshot | ExtractPage nat | ClickNext nat

fun total_sleep :: "event list \<Rightarrow> nat" where
  "total_sleep [] = 0"
| "total_sleep (Sleep n # evs) = n + total_sleep evs"
| "total_sleep (_ # evs) = total_sleep evs"

definition max_pages :: nat where
  "max_pages = 3"

text \<open>
  \<^verbatim>\<open>
  while current_page <= max_pages:
      ... job_cards = first non-empty selector result ...
      if not job_cards: break
      ... page_job_links = hrefs of the cards ...
      job_links.extend(page_job_links)
      if len(job_links) >= max_jobs:
          job_links = job_links[:max_jobs]; break
      if current_page < max_pages:
          try:
              ... look up next_button ...
              if next_button:
                  screenshot; next_button.click(); time.sleep(5); screenshot
                  current_page += 1
              else: break
          except Exception: break
      else: break
  \<close>
\<close>

function extract_pages ::
  "browser \<Rightarrow> nat \<Rightarrow> nat \<Rightarrow> string list \<Rightarrow> event list \<Rightarrow> event list \<times> string list" where
  "extract_pages b max_jobs current_page job_links evs =
     (if current_page \<le> max_pages then
        (let cards = job_cards b current_page
         in if cards = [] then (evs, job_links)
            else
              (let page_job_links = List.map_filter id cards;
                   job_links' = job_links @ page_job_links;
                   evs' = evs @ [ExtractPage current_page]
               in if max_jobs \<le> length job_links' then (evs', take max_jobs job_links')
                  else if current_page < max_pages then
                    (case click_next b current_page of
                       NextClicked \<Rightarrow>
                         extract_pages b max_jobs (current_page + 1) job_links'
                           (evs' @ [SaveScreenshot, ClickNext current_page, Sleep 5, SaveScreenshot])
                     | NoNextButton \<Rightarrow> (evs', job_links')
                     | NextRaises \<Rightarrow> (evs', job_links'))
                  else (evs', job_links')))
      else (evs, job_links))"
  by pat_completeness auto
termination
  by (relation "measure (\<lambda>(b, max_jobs, current_page, job_links, evs). Suc max_pages - current_page)")
     auto

declare extract_pages.simps [simp del]

text \<open>
  \<^verbatim>\<open>
  print("Waiting for results to update...")
  time.sleep(50000000)
  driver.save_screenshot(...)          # final results
  job_links = []; current_page = 1
  driver.save_screenshot(...)          # first page
  while current_page <= max_pages: ...
  \<close>
\<close>

definition post_filter_stage :: "browser \<Rightarrow> nat \<Rightarrow> event list \<times> string list" where
  "post_filter_stage b max_jobs =
     extract_pages b max_jobs 1 [] [Sleep 50000000, SaveScreenshot, SaveScreenshot]"

section \<open>Example inputs\<close>

text \<open>A ranked job as \<^verbatim>\<open>main\<close> builds it from the job record with id \<open>n\<close>.\<close>

definition example_job :: "nat \<Rightarrow> string \<Rightarrow> real \<Rightarrow> string \<Rightarrow> ranked_job" where
  "example_job n t sc atype =
     \<lparr>title = t, company = ''Acme'', location = ''Pune'', url = ''https://jobs.example/'' @ t,
      score = sc, explanation = ''matched'',
      details = \<lparr>job_description = Some ''We are hiring'', role = Some t,
                 company_name = Some ''Acme'', job_location = Some ''Pune'',
                 job_url = Some (''https://jobs.example/'' @ t), apply_type = Some atype,
                 application_method = None\<rparr>,
      details_id = n,
      applied = None, eligibility_reason = None\<rparr>"

text \<open>Scenario D: the role "Data Analyst" occurs three times in the job title.\<close>

definition scenario_d_job :: ranked_job where
  "scenario_d_job = example_job 1 ''Data Analyst - Data Analyst (Data Analyst)'' 5 ''direct''"

text \<open>A role list that names the same role twice, as \<^verbatim>\<open>--roles "analyst,analyst"\<close> gives.\<close>

definition duplicate_roles :: "string list" where
  "duplicate_roles = [''analyst'', ''analyst'']"

definition analyst_job :: ranked_job where
  "analyst_job = example_job 1 ''Analyst'' 5 ''direct''"

text \<open>
  Two job records and three sets of scoring back-ends: one that scores the first job and
  has no score for the second, one whose model cannot be reached, and one whose keyword
  scorer fails on the second job.
\<close>

definition example_items :: "(nat \<times> job_details) list" where
  "example_items = [(1, details (example_job 1 ''Data Analyst'' 0 ''direct'')),
                    (2, details (example_job 2 ''Data Engineer'' 0 ''direct''))]"

definition example_results :: "scoring_result list" where
  "example_results = [(1, Some 7, ''good match''), (2, None, ''scorer unavailable'')]"

definition partial_scorers :: scorers where
  "partial_scorers =
     \<lparr>initialize_model = Returned (), batch_process_jobs = Returned example_results,
      two_stage_job_matching = Returned example_results,
      quick_match_score = (\<lambda>job_id. Returned (if job_id = 1 then Some 7 else None)),
      str_score = (\<lambda>s. ''7'')\<rparr>"

definition unreachable_scorers :: scorers where
  "unreachable_scorers = partial_scorers\<lparr>batch_process_jobs := Raised\<rparr>"

definition failing_keyword_scorers :: scorers where
  "failing_keyword_scorers =
     partial_scorers\<lparr>quick_match_score := (\<lambda>job_id. if job_id = 1 then Returned (Some 7) else Raised)\<rparr>"

text \<open>
  Scenario B: a high-scoring job that must be applied for on the company site, a
  low-scoring and a high-scoring direct job; a gate input without any token overlap.
\<close>

definition scenario_b_jobs :: "ranked_job list" where
  "scenario_b_jobs = [example_job 1 ''Analyst'' 9 ''company_site'', example_job 2 ''Analyst'' 3 ''direct'',
                      example_job 3 ''Tester'' 8 ''direct'']"

definition no_overlap :: "ranked_job \<Rightarrow> string list \<Rightarrow> string list \<Rightarrow> bool" where
  "no_overlap job user_roles search_skills = False"

text \<open>External actors and argument records used in the instances below.\<close>

definition tester_job :: ranked_job where
  "tester_job = example_job 3 ''Tester'' 8 ''direct''"

definition flaky_env :: env where
  "flaky_env =
     \<lparr>start_browser = True, ensure_logged_in = True, load_results = JNone,
      run_naukri_chatbot =
        (\<lambda>i k. if k = 0 then Exited 1 ''TimeoutException'' False
               else Exited 0 ''Applied using direct apply'' False),
      entropy = (\<lambda>i. 3)\<rparr>"

definition hopeless_env :: env where
  "hopeless_env =
     \<lparr>start_browser = True, ensure_logged_in = True, load_results = JNone,
      run_naukri_chatbot = (\<lambda>i k. Exited 1 ''TimeoutException'' False),
      entropy = (\<lambda>i. 3)\<rparr>"

definition steady_env :: env where
  "steady_env =
     \<lparr>start_browser = True, ensure_logged_in = True, load_results = JNone,
      run_naukri_chatbot = (\<lambda>i k. Exited 0 ''Applied using direct apply'' False),
      entropy = (\<lambda>i. 4)\<rparr>"

text \<open>
  Four attempts of four kinds: the user data file cannot be written, the subprocess
  cannot be started, the run times out, and the run reports an earlier application.
\<close>

definition varied_env :: env where
  "varied_env =
     \<lparr>start_browser = True, ensure_logged_in = True, load_results = JNone,
      run_naukri_chatbot =
        (\<lambda>i k. if i = 0 then RaisedBeforeCall
               else if i = 1 then RaisedInCall
               else if i = 2 then Exited 1 ''TimeoutException'' False
               else Exited 0 ''You have already applied'' False),
      entropy = (\<lambda>i. i)\<rparr>"

definition four_jobs :: "ranked_job list" where
  "four_jobs = [example_job 1 ''J1'' 8 ''direct'', example_job 2 ''J2'' 8 ''direct'',
                example_job 3 ''J3'' 7 ''direct'', example_job 4 ''J4'' 7 ''naukri'']"

text \<open>
  The keyword branch ranks every job twice, and both entries hold the details dictionary
  of the job record; the first run names a method, the second does not.
\<close>

definition twin_jobs :: "ranked_job list" where
  "twin_jobs = [example_job 3 ''Tester'' 8 ''direct'', example_job 3 ''Tester'' 8 ''direct'']"

definition twin_env :: env where
  "twin_env =
     \<lparr>start_browser = True, ensure_logged_in = True, load_results = JNone,
      run_naukri_chatbot =
        (\<lambda>i k. if i = 0 then Exited 0 ''You have already applied'' False
               else Exited 0 ''done'' False),
      entropy = (\<lambda>i. 4)\<rparr>"

definition five_jobs :: "ranked_job list" where
  "five_jobs = [example_job 1 ''J1'' 8 ''direct'', example_job 2 ''J2'' 8 ''direct'',
                example_job 3 ''J3'' 7 ''direct'', example_job 4 ''J4'' 7 ''naukri'',
                example_job 5 ''J5'' 6 ''direct'']"

definition four_results :: "ranked_job list" where
  "four_results = map (\<lambda>job. job\<lparr>applied := Some True\<rparr>) (take 4 five_jobs)"

definition bulk_env :: env where
  "bulk_env = steady_env\<lparr>load_results := JList four_results\<rparr>"

definition mixed_jobs :: "ranked_job list" where
  "mixed_jobs = [example_job 1 ''J1'' 8 ''direct'', example_job 2 ''J2'' 8 ''company_site'']"

definition mixed_env :: env where
  "mixed_env = steady_env\<lparr>load_results := JList [(example_job 1 ''J1'' 8 ''direct'')\<lparr>applied := Some True\<rparr>]\<rparr>"

definition bulk_args :: args where
  "bulk_args = \<lparr>mode = Full, apply_flag = False, auto_apply = True\<rparr>"

definition regular_args :: args where
  "regular_args = \<lparr>mode = Full, apply_flag = True, auto_apply = False\<rparr>"

definition no_browser_env :: env where
  "no_browser_env = steady_env\<lparr>start_browser := False\<rparr>"

section \<open>Properties of the ranker\<close>

lemma py_sort_reverse_sorted:
  "sorted_wrt (\<lambda>a b. key b \<le> key a) (py_sort_reverse key xs)"
proof -
  have "sorted (map key (sort_key key (rev xs)))"
    by (rule sorted_sort_key)
  then have "sorted_wrt (\<lambda>a b. key a \<le> key b) (sort_key key (rev xs))"
    by (simp add: sorted_wrt_map)
  then show ?thesis
    unfolding py_sort_reverse_def by (simp add: sorted_wrt_rev)
qed

lemma py_sort_reverse_stable:
  "filter (\<lambda>x. key x = k) (py_sort_reverse key xs) = filter (\<lambda>x. key x = k) xs"
proof -
  have "filter (\<lambda>x. key x = k) (sort_key key (rev xs)) = filter (\<lambda>x. key x = k) (rev xs)"
    by (rule sort_key_stable)
  then have "rev (filter (\<lambda>x. key x = k) (sort_key key (rev xs))) = filter (\<lambda>x. key x = k) xs"
    by (simp add: rev_filter)
  then show ?thesis
    unfolding py_sort_reverse_def by (simp add: rev_filter)
qed

lemma py_sort_reverse_mset: "mset (py_sort_reverse key xs) = mset xs"
  unfolding py_sort_reverse_def by simp

lemma role_match_score_filter:
  "role_match_score str_lower roles job_role
     = length (filter (\<lambda>r. str_in (str_lower r) job_role) roles)"
  by (induction roles) simp_all

lemma distinct_filter_card:
  assumes "distinct roles"
  shows "length (filter P roles) = card {r \<in> set roles. P r}"
proof -
  have "distinct (filter P roles)"
    using assms by simp
  from distinct_card [OF this] show ?thesis
    by simp
qed

lemma details_prioritize_job: "details (prioritize_job str_lower user_roles job) = details job"
  by (simp add: prioritize_job_def Let_def)

lemma prioritize_jobs_map:
  "prioritize_jobs str_lower user_roles ranked_jobs
     = map (prioritize_job str_lower user_roles) ranked_jobs"
proof (cases "user_roles = []")
  case True
  then have "prioritize_job str_lower user_roles job = job" for job
    by (simp add: prioritize_job_def)
  then have "map (prioritize_job str_lower user_roles) ranked_jobs = ranked_jobs"
    by (simp add: map_idI)
  with True show ?thesis by (simp add: prioritize_jobs_def)
next
  case False
  then show ?thesis by (simp add: prioritize_jobs_def)
qed

text \<open>
  C3: after ranking, the adjusted scores of the ranked list are non-increasing from
  first to last; the ranked list is a rearrangement of the bonus-adjusted jobs; and for
  every score value the jobs with that adjusted score stand in the same relative order
  as in the list before ranking.
\<close>

theorem ranking_sorted_and_stable:
  "sorted_wrt (\<lambda>a b. score b \<le> score a) (rank_jobs str_lower user_roles ranked_jobs)
   \<and> mset (rank_jobs str_lower user_roles ranked_jobs)
       = mset (map (prioritize_job str_lower user_roles) ranked_jobs)
   \<and> (\<forall>k. filter (\<lambda>j. score j = k) (rank_jobs str_lower user_roles ranked_jobs)
            = map (prioritize_job str_lower user_roles)
                (filter (\<lambda>j. score (prioritize_job str_lower user_roles j) = k) ranked_jobs))"
  unfolding rank_jobs_def prioritize_jobs_map
  by (simp add: py_sort_reverse_sorted py_sort_reverse_stable py_sort_reverse_mset
      filter_map comp_def)

section \<open>Properties of the role-match bonus\<close>

lemma prioritize_job_score:
  "score (prioritize_job str_lower user_roles job) =
     (let n = role_match_score str_lower user_roles (str_lower (title job))
      in if n = 0 then score job else min (score job + real (min n 2)) 10)"
  by (simp add: prioritize_job_def Let_def)

text \<open>
  C4 (amended): the bonus is +1 for every entry of the user role list whose lower-cased
  text occurs in the lower-cased job title, capped at +2; the list is not de-duplicated,
  so a role that is listed twice counts twice. When a bonus is added the adjusted score
  is the smaller of score + bonus and 10; a job that matches no role keeps its score as
  it is. So the score never grows by more than 2, and a score within 10 stays within 10.
  A single role counts once however often it occurs in the title. For a list without
  repetitions the number of matching entries is the number of distinct matching roles.
\<close>

theorem role_bonus_counts_entries:
  "score (prioritize_job str_lower user_roles job) =
     (let n = length (filter (\<lambda>r. str_in (str_lower r) (str_lower (title job))) user_roles)
      in if n = 0 then score job else min (score job + real (min n 2)) 10)
   \<and> score (prioritize_job str_lower [r] job) =
       (if str_in (str_lower r) (str_lower (title job)) then min (score job + 1) 10 else score job)
   \<and> (distinct user_roles \<longrightarrow>
         length (filter (\<lambda>r. str_in (str_lower r) (str_lower (title job))) user_roles)
           = card {r \<in> set user_roles. str_in (str_lower r) (str_lower (title job))})
   \<and> score (prioritize_job str_lower user_roles job) \<le> score job + 2
   \<and> (score job \<le> 10 \<longrightarrow> score (prioritize_job str_lower user_roles job) \<le> 10)
   \<and> prioritize_jobs str_lower user_roles ranked_jobs
       = map (prioritize_job str_lower user_roles) ranked_jobs"
proof -
  have a: "score (prioritize_job str_lower user_roles job) =
     (let n = length (filter (\<lambda>r. str_in (str_lower r) (str_lower (title job))) user_roles)
      in if n = 0 then score job else min (score job + real (min n 2)) 10)"
    by (simp only: prioritize_job_score role_match_score_filter)
  have b: "score (prioritize_job str_lower [r] job) =
       (if str_in (str_lower r) (str_lower (title job)) then min (score job + 1) 10 else score job)"
    by (simp add: prioritize_job_score)
  have c: "distinct user_roles \<longrightarrow>
         length (filter (\<lambda>r. str_in (str_lower r) (str_lower (title job))) user_roles)
           = card {r \<in> set user_roles. str_in (str_lower r) (str_lower (title job))}"
    by (simp add: distinct_filter_card)
  let ?n = "role_match_score str_lower user_roles (str_lower (title job))"
  have eq: "score (prioritize_job str_lower user_roles job) =
              (if ?n = 0 then score job else min (score job + real (min ?n 2)) 10)"
    by (simp add: prioritize_job_score Let_def)
  have "real (min ?n 2) \<le> 2" by simp
  then have le2: "score (prioritize_job str_lower user_roles job) \<le> score job + 2"
    unfolding eq by (simp add: min_def)
  have le10: "score job \<le> 10 \<longrightarrow> score (prioritize_job str_lower user_roles job) \<le> 10"
    unfolding eq by simp
  from a b c le2 le10 prioritize_jobs_map show ?thesis by blast
qed

text \<open>
  C4 as stated fails: the role list names "analyst" twice, so it holds one distinct
  role; the title "Analyst" contains it, and the score 5 becomes 7, not 6.
\<close>

theorem duplicate_role_counterexample:
  "card (set duplicate_roles) = 1
   \<and> str_in (ascii_lower ''analyst'') (ascii_lower (title analyst_job))
   \<and> score analyst_job = 5
   \<and> score (prioritize_job ascii_lower duplicate_roles analyst_job) = 7"
  by code_simp

text \<open>
  Scenario D as an instance: one role, three occurrences in the title, bonus +1; a role
  that does not occur in the title leaves the score alone.
\<close>

theorem role_bonus_counts_entries_witness:
  "distinct [''Data Analyst'']
   \<and> score scenario_d_job = 5
   \<and> score (prioritize_job ascii_lower [''Data Analyst''] scenario_d_job) = 6
   \<and> score (prioritize_job ascii_lower [''Tester''] scenario_d_job) = 5
   \<and> card {r \<in> set [''Data Analyst'']. str_in (ascii_lower r) (ascii_lower (title scenario_d_job))}
       = 1"
proof -
  have d: "distinct [''Data Analyst'']" by simp
  have s: "score scenario_d_job = 5"
    by (simp add: scenario_d_job_def example_job_def)
  have m: "str_in (ascii_lower ''Data Analyst'') (ascii_lower (title scenario_d_job))"
    by code_simp
  have n: "\<not> str_in (ascii_lower ''Tester'') (ascii_lower (title scenario_d_job))"
    by code_simp
  note t1 = role_bonus_counts_entries [of ascii_lower "[''Data Analyst'']" scenario_d_job
      "''Data Analyst''" "[]"]
  note t2 = role_bonus_counts_entries [of ascii_lower "[''Tester'']" scenario_d_job
      "''Tester''" "[]"]
  from t1 m s have v1: "score (prioritize_job ascii_lower [''Data Analyst''] scenario_d_job) = 6"
    by simp
  from t2 n s have v2: "score (prioritize_job ascii_lower [''Tester''] scenario_d_job) = 5"
    by simp
  from t1 d m have c: "card {r \<in> set [''Data Analyst''].
       str_in (ascii_lower r) (ascii_lower (title scenario_d_job))} = 1"
    by simp
  from d s v1 v2 c show ?thesis by blast
qed

section \<open>Properties of the scoring stage\<close>

lemma append_scored_acc: "append_scored jd rs acc = acc @ append_scored jd rs []"
proof (induction rs arbitrary: acc)
  case Nil
  show ?case by simp
next
  case (Cons r rs)
  obtain i sc e where r: "r = (i, sc, e)" by (cases r)
  have step: "append_scored jd rs (acc @ [m]) = acc @ append_scored jd rs [m]" for m
    using Cons.IH [of "acc @ [m]"] Cons.IH [of "[m]"] by simp
  show ?case
    using Cons.IH [of acc] step by (simp add: r split: option.splits)
qed

lemma append_scored_append:
  "append_scored jd (rs1 @ rs2) acc = append_scored jd rs2 (append_scored jd rs1 acc)"
proof (induction rs1 arbitrary: acc)
  case Nil show ?case by simp
next
  case (Cons r rs1)
  obtain i sc e where r: "r = (i, sc, e)" by (cases r)
  show ?case by (simp add: r Cons.IH split: option.splits)
qed

lemma append_scored_unscored:
  "append_scored jd (rs1 @ (i, None, e) # rs2) acc = append_scored jd (rs1 @ rs2) acc"
  by (simp add: append_scored_append)

lemma append_scored_scores:
  "job \<in> set (append_scored jd rs []) \<Longrightarrow> \<exists>i e. (i, Some (score job), e) \<in> set rs"
proof (induction rs)
  case Nil then show ?case by simp
next
  case (Cons r rs)
  obtain i sc e where r: "r = (i, sc, e)" by (cases r)
  show ?case
  proof (cases "sc = None \<or> jd i = None")
    case True
    then have "append_scored jd (r # rs) [] = append_scored jd rs []"
      by (auto simp: r split: option.splits)
    with Cons show ?thesis by auto
  next
    case False
    then obtain s d where s: "sc = Some s" and d: "jd i = Some d" by auto
    have "append_scored jd (r # rs) [] = make_ranked_job i d s e # append_scored jd rs []"
      using append_scored_acc [of jd rs "[make_ranked_job i d s e]"] by (simp add: r s d)
    with Cons.prems have "job = make_ranked_job i d s e \<or> job \<in> set (append_scored jd rs [])"
      by simp
    then show ?thesis
    proof
      assume "job = make_ranked_job i d s e"
      then have "score job = s" by (simp add: make_ranked_job_def)
      then show ?thesis unfolding r s by auto
    next
      assume "job \<in> set (append_scored jd rs [])"
      from Cons.IH [OF this] show ?thesis by auto
    qed
  qed
qed

lemma build_ranked_jobs_unscored:
  "build_ranked_jobs match_method job_dict (rs1 @ (job_id, None, expl) # rs2)
     = build_ranked_jobs match_method job_dict (rs1 @ rs2)"
  by (simp add: build_ranked_jobs_def append_scored_unscored)

lemma build_ranked_jobs_scores:
  "job \<in> set (build_ranked_jobs match_method job_dict results)
   \<Longrightarrow> \<exists>i e. (i, Some (score job), e) \<in> set results"
proof -
  have "set (build_ranked_jobs match_method job_dict results)
          = set (append_scored job_dict results [])"
    using append_scored_acc [of job_dict results "append_scored job_dict results []"]
    by (simp add: build_ranked_jobs_def)
  then show "job \<in> set (build_ranked_jobs match_method job_dict results)
   \<Longrightarrow> \<exists>i e. (i, Some (score job), e) \<in> set results"
    using append_scored_scores by blast
qed

lemma keyword_results_raises:
  "(job_id, job) \<in> set items \<Longrightarrow> get_default (job_description job) [] \<noteq> [] \<Longrightarrow>
   quick_match_score sc job_id = Raised \<Longrightarrow> keyword_results sc items results = Raised"
proof (induction items arbitrary: results)
  case Nil
  then show ?case by simp
next
  case (Cons item items)
  obtain i j where item: "item = (i, j)" by (cases item)
  show ?case
  proof (cases "item = (job_id, job)")
    case True
    with item Cons.prems show ?thesis by simp
  next
    case False
    with Cons.prems have "(job_id, job) \<in> set items" by simp
    from Cons.IH [OF this Cons.prems(2) Cons.prems(3)]
    show ?thesis by (simp add: item split: call.splits)
  qed
qed

text \<open>
  C8 (amended): a job for which the scoring back-end hands back no score is left out of
  the ranked list, which is the same as if that result were absent, and every ranked job
  carries a score that the back-end reported, never a default. An exception raised by a
  scoring back-end is not caught: when the model cannot be initialised, or the batch, the
  two-stage or a keyword scorer call raises, the scoring stage of \<^verbatim>\<open>main\<close> ends with that
  exception and ranks nothing.
\<close>

theorem unscored_excluded_exceptions_escape:
  "(scoring_results sc match_method items = Returned (rs1 @ (job_id, None, expl) # rs2)
      \<longrightarrow> score_jobs sc match_method items
            = Returned (build_ranked_jobs match_method (map_of items) (rs1 @ rs2)))
   \<and> (score_jobs sc match_method items = Returned ranked
      \<longrightarrow> (\<forall>job \<in> set ranked. \<exists>results i e.
              scoring_results sc match_method items = Returned results
              \<and> (i, Some (score job), e) \<in> set results))
   \<and> (scoring_results sc match_method items = Raised) = (score_jobs sc match_method items = Raised)
   \<and> (initialize_model sc = Raised \<or> batch_process_jobs sc = Raised
      \<longrightarrow> score_jobs sc ''1'' items = Raised)
   \<and> (two_stage_job_matching sc = Raised \<longrightarrow> score_jobs sc ''2'' items = Raised)
   \<and> (match_method \<noteq> ''1'' \<and> match_method \<noteq> ''2'' \<and> (job_id, job) \<in> set items
       \<and> get_default (job_description job) [] \<noteq> [] \<and> quick_match_score sc job_id = Raised
      \<longrightarrow> score_jobs sc match_method items = Raised)"
proof -
  have a: "scoring_results sc match_method items = Returned (rs1 @ (job_id, None, expl) # rs2)
      \<longrightarrow> score_jobs sc match_method items
            = Returned (build_ranked_jobs match_method (map_of items) (rs1 @ rs2))"
    by (simp add: score_jobs_def build_ranked_jobs_unscored)
  have b: "score_jobs sc match_method items = Returned ranked
      \<longrightarrow> (\<forall>job \<in> set ranked. \<exists>results i e.
              scoring_results sc match_method items = Returned results
              \<and> (i, Some (score job), e) \<in> set results)"
  proof (cases "scoring_results sc match_method items")
    case Raised
    then show ?thesis by (simp add: score_jobs_def)
  next
    case (Returned results)
    show ?thesis
    proof (intro impI ballI)
      fix job assume "score_jobs sc match_method items = Returned ranked" "job \<in> set ranked"
      with Returned have "job \<in> set (build_ranked_jobs match_method (map_of items) results)"
        by (auto simp: score_jobs_def)
      from build_ranked_jobs_scores [OF this] Returned
      show "\<exists>results i e. scoring_results sc match_method items = Returned results
              \<and> (i, Some (score job), e) \<in> set results"
        by blast
    qed
  qed
  have c: "(scoring_results sc match_method items = Raised)
             = (score_jobs sc match_method items = Raised)"
    by (simp add: score_jobs_def split: call.splits)
  have d: "initialize_model sc = Raised \<or> batch_process_jobs sc = Raised
      \<longrightarrow> score_jobs sc ''1'' items = Raised"
    by (auto simp: score_jobs_def scoring_results_def split: call.splits)
  have e: "two_stage_job_matching sc = Raised \<longrightarrow> score_jobs sc ''2'' items = Raised"
    by (simp add: score_jobs_def scoring_results_def)
  have f: "match_method \<noteq> ''1'' \<and> match_method \<noteq> ''2'' \<and> (job_id, job) \<in> set items
       \<and> get_default (job_description job) [] \<noteq> [] \<and> quick_match_score sc job_id = Raised
      \<longrightarrow> score_jobs sc match_method items = Raised"
    using keyword_results_raises [of job_id job items sc "[]"]
    by (simp add: score_jobs_def scoring_results_def)
  from a b c d e f show ?thesis by blast
qed

text \<open>
  C8 as stated fails: with the first matching method chosen and a model back-end that
  cannot be reached, the call of \<^verbatim>\<open>batch_process_jobs\<close> raises, and so does the scoring
  stage; with the keyword method, a failure of the scorer on the second job does the same.
\<close>

theorem scorer_exception_counterexample:
  "batch_process_jobs unreachable_scorers = Raised
   \<and> score_jobs unreachable_scorers ''1'' example_items = Raised
   \<and> quick_match_score failing_keyword_scorers 2 = Raised
   \<and> score_jobs failing_keyword_scorers ''3'' example_items = Raised"
  by (simp add: unreachable_scorers_def failing_keyword_scorers_def partial_scorers_def
      score_jobs_def scoring_results_def example_items_def example_job_def get_default_def)

text \<open>
  Instances: a back-end that scores the first job and has no score for the second ranks
  the first job only, with its score 7; a back-end whose batch call raises ranks nothing.
\<close>

theorem unscored_excluded_exceptions_escape_witness:
  "scoring_results partial_scorers ''2'' example_items
     = Returned ([(1, Some 7, ''good match'')] @ (2, None, ''scorer unavailable'') # [])
   \<and> score_jobs partial_scorers ''2'' example_items
     = Returned [make_ranked_job 1 (details (example_job 1 ''Data Analyst'' 0 ''direct'')) 7
                   ''good match'']
   \<and> (\<exists>results i e. scoring_results partial_scorers ''2'' example_items = Returned results
         \<and> (i, Some 7, e) \<in> set results)
   \<and> batch_process_jobs unreachable_scorers = Raised
   \<and> score_jobs unreachable_scorers ''1'' example_items = Raised"
proof -
  let ?job = "make_ranked_job 1 (details (example_job 1 ''Data Analyst'' 0 ''direct'')) 7
                ''good match''"
  have r: "scoring_results partial_scorers ''2'' example_items
             = Returned ([(1, Some 7, ''good match'')] @ (2, None, ''scorer unavailable'') # [])"
    by (simp add: scoring_results_def partial_scorers_def example_results_def)
  have v: "build_ranked_jobs ''2'' (map_of example_items) ([(1, Some 7, ''good match'')] @ [])
             = [?job]"
    by (simp add: build_ranked_jobs_def example_items_def)
  have s: "score ?job = 7"
    by (simp add: make_ranked_job_def)
  have u: "batch_process_jobs unreachable_scorers = Raised"
    by (simp add: unreachable_scorers_def)
  note t = unscored_excluded_exceptions_escape [of partial_scorers "''2''" example_items
      "[(1, Some 7, ''good match'')]" 2 "''scorer unavailable''" "[]" "[?job]"
      "details (example_job 2 ''Data Engineer'' 0 ''direct'')"]
  note t' = unscored_excluded_exceptions_escape [of unreachable_scorers "''1''" example_items
      "[]" 2 "''scorer unavailable''" "[]" "[]"
      "details (example_job 2 ''Data Engineer'' 0 ''direct'')"]
  from t r v have sj: "score_jobs partial_scorers ''2'' example_items = Returned [?job]"
    by simp
  from t sj have "\<exists>results i e. scoring_results partial_scorers ''2'' example_items = Returned results
         \<and> (i, Some (score ?job), e) \<in> set results"
    by simp
  with s have ex: "\<exists>results i e. scoring_results partial_scorers ''2'' example_items = Returned results
         \<and> (i, Some 7, e) \<in> set results"
    by simp
  from t' u have ur: "score_jobs unreachable_scorers ''1'' example_items = Raised"
    by blast
  from r sj ex u ur show ?thesis by blast
qed

section \<open>Properties of the eligibility gate\<close>

lemma prioritize_filter_company_site:
  "prioritize_jobs str_lower user_roles (filter_company_site_jobs fcs ranked_jobs)
     = filter_company_site_jobs fcs (prioritize_jobs str_lower user_roles ranked_jobs)"
  by (simp add: prioritize_jobs_map filter_company_site_jobs_def filter_map comp_def
      details_prioritize_job)

lemma set_rank_jobs:
  "set (rank_jobs str_lower user_roles ranked_jobs)
     = set (prioritize_jobs str_lower user_roles ranked_jobs)"
  unfolding rank_jobs_def by (rule mset_eq_setD) (rule py_sort_reverse_mset)

lemma split_eligible_fst:
  "fst (split_eligible has_overlap user_roles search_skills ranked_jobs)
     = map (\<lambda>job. job\<lparr>eligibility_reason := Some ''score or role/skill overlap''\<rparr>)
         (filter (\<lambda>job. \<not> (score job < 5 \<and> \<not> has_overlap job user_roles search_skills)) ranked_jobs)"
  by (induction ranked_jobs) (auto simp: check_job_eligibility_def split: prod.splits)

text \<open>
  C6: the gate works in a fixed order. First the apply-type exclusion: with the filter
  enabled a job of apply type \<^verbatim>\<open>company_site\<close> is removed from the list whatever its
  score. Second, \<^verbatim>\<open>check_job_eligibility\<close> rejects a job exactly when its score is
  below \<^verbatim>\<open>min_score\<close> and it has no role/skill overlap. The jobs selected are exactly
  the bonus-adjusted jobs that pass both clauses, marked with the reason.
\<close>

theorem gate_precedence:
  "set (select_jobs str_lower filter_company_site has_overlap user_roles search_skills ranked_jobs)
     = (\<lambda>job. job\<lparr>eligibility_reason := Some ''score or role/skill overlap''\<rparr>) `
         {job \<in> set (prioritize_jobs str_lower user_roles ranked_jobs).
            \<not> (filter_company_site \<and> get_default (apply_type (details job)) [] = ''company_site'')
            \<and> \<not> (score job < 5 \<and> \<not> has_overlap job user_roles search_skills)}
   \<and> fst (check_job_eligibility has_overlap job user_roles min_score search_skills)
       = (\<not> (score job < min_score \<and> \<not> has_overlap job user_roles search_skills))
   \<and> (filter_company_site \<and> get_default (apply_type (details job)) [] = ''company_site''
        \<longrightarrow> job \<notin> set (filter_company_site_jobs filter_company_site ranked_jobs))"
proof -
  have a: "set (select_jobs str_lower filter_company_site has_overlap user_roles search_skills ranked_jobs)
     = (\<lambda>job. job\<lparr>eligibility_reason := Some ''score or role/skill overlap''\<rparr>) `
         {job \<in> set (prioritize_jobs str_lower user_roles ranked_jobs).
            \<not> (filter_company_site \<and> get_default (apply_type (details job)) [] = ''company_site'')
            \<and> \<not> (score job < 5 \<and> \<not> has_overlap job user_roles search_skills)}"
    unfolding select_jobs_def split_eligible_fst set_map set_filter set_rank_jobs
      prioritize_filter_company_site
    by (rule arg_cong [where f = "image _"]) (auto simp: filter_company_site_jobs_def)
  have b: "fst (check_job_eligibility has_overlap job user_roles min_score search_skills)
       = (\<not> (score job < min_score \<and> \<not> has_overlap job user_roles search_skills))"
    by (simp add: check_job_eligibility_def)
  have c: "filter_company_site \<and> get_default (apply_type (details job)) [] = ''company_site''
        \<longrightarrow> job \<notin> set (filter_company_site_jobs filter_company_site ranked_jobs)"
    by (simp add: filter_company_site_jobs_def)
  from a b c show ?thesis by blast
qed

text \<open>
  Scenario B as an instance: the company-site job with score 9 is filtered out, the
  direct job with score 3 and no overlap is rejected, the direct job with score 8 passes.
\<close>

theorem gate_precedence_witness:
  "get_default (apply_type (details (example_job 1 ''Analyst'' 9 ''company_site''))) [] = ''company_site''
   \<and> example_job 1 ''Analyst'' 9 ''company_site'' \<in> set scenario_b_jobs
   \<and> example_job 1 ''Analyst'' 9 ''company_site'' \<notin> set (filter_company_site_jobs True scenario_b_jobs)
   \<and> \<not> fst (check_job_eligibility no_overlap (example_job 2 ''Analyst'' 3 ''direct'') [] 5 [])
   \<and> fst (check_job_eligibility no_overlap (example_job 3 ''Tester'' 8 ''direct'') [] 5 [])"
proof -
  have t: "get_default (apply_type (details (example_job 1 ''Analyst'' 9 ''company_site''))) []
             = ''company_site''"
    by (simp add: example_job_def get_default_def)
  have m: "example_job 1 ''Analyst'' 9 ''company_site'' \<in> set scenario_b_jobs"
    by (simp add: scenario_b_jobs_def)
  have s3: "score (example_job 2 ''Analyst'' 3 ''direct'') < 5"
    and s8: "\<not> score (example_job 3 ''Tester'' 8 ''direct'') < 5"
    by (simp_all add: example_job_def)
  from gate_precedence [of ascii_lower True no_overlap "[]" "[]" scenario_b_jobs
         "example_job 1 ''Analyst'' 9 ''company_site''" 5]
       gate_precedence [of ascii_lower True no_overlap "[]" "[]" scenario_b_jobs
         "example_job 2 ''Analyst'' 3 ''direct''" 5]
       gate_precedence [of ascii_lower True no_overlap "[]" "[]" scenario_b_jobs
         "example_job 3 ''Tester'' 8 ''direct''" 5]
       t m s3 s8
  show ?thesis by (simp add: no_overlap_def)
qed

section \<open>Properties of the regular apply loop\<close>

lemma randint_5_10: "5 \<le> randint 5 10 r \<and> randint 5 10 r \<le> 10"
proof -
  have "r mod 6 < 6" by simp
  then show ?thesis by (simp add: randint_def)
qed

lemma url_store_method: "url (store_method apply_method d job) = url job"
  by (simp add: store_method_def split: option.splits)

lemma map_url_store_method: "map url (map (store_method apply_method d) jobs) = map url jobs"
  by (simp add: comp_def url_store_method)

lemma url_pending_write: "url (pending_write e do_apply i job j) = url j"
  by (simp add: pending_write_def url_store_method split: attempt.splits)

lemma url_comp_pending_write: "url \<circ> pending_write e do_apply i job = url"
  by (rule ext) (simp add: url_pending_write)

lemma map_url_pending_write: "map url (map (pending_write e do_apply i job) jobs) = map url jobs"
  by (simp add: url_comp_pending_write)

lemma apply_one_skipped:
  "skipped_jobs st = [] \<Longrightarrow> skipped_jobs (apply_one e do_apply i job st) = []"
  by (simp add: apply_one_def Let_def split: attempt.splits)

lemma apply_one_calls:
  "connector_calls (apply_one e True i job st)
     = connector_calls st + (if attempt_calls (run_naukri_chatbot e i 0) then 1 else 0)"
  by (cases "run_naukri_chatbot e i 0") (simp_all add: apply_one_def Let_def)

lemma apply_one_sleeps:
  "sleeps (apply_one e True i job st)
     = sleeps st @ (if attempt_completes (run_naukri_chatbot e i 0)
                    then [randint 5 10 (entropy e i)] else [])"
  by (cases "run_naukri_chatbot e i 0") (simp_all add: apply_one_def Let_def)

lemma apply_one_applied_urls:
  "map url (applied_jobs (apply_one e True i job st))
     = map url (applied_jobs st)
       @ (if attempt_succeeds (run_naukri_chatbot e i 0) then [url job] else [])"
  by (cases "run_naukri_chatbot e i 0")
     (simp_all add: apply_one_def Let_def map_url_store_method url_store_method)

lemma apply_one_failed_urls:
  "map url (failed_jobs (apply_one e True i job st))
     = map url (failed_jobs st) @ replicate (attempt_failures (run_naukri_chatbot e i 0)) (url job)"
  by (cases "run_naukri_chatbot e i 0")
     (simp_all add: apply_one_def Let_def map_url_store_method url_store_method)

lemma apply_one_lists:
  "run_naukri_chatbot e i 0 = Exited rc out bk \<Longrightarrow>
   applied_jobs (apply_one e True i job st)
     = map (store_method (parse_apply_method out) (details_id job))
         (applied_jobs st @ (if rc = 0 then [job] else []))
   \<and> failed_jobs (apply_one e True i job st)
     = map (store_method (parse_apply_method out) (details_id job))
         (failed_jobs st @ (if rc = 0 then [] else [job]) @ (if bk then [job] else []))"
  by (simp add: apply_one_def Let_def)

lemma apply_one_cong:
  "run_naukri_chatbot e' i 0 = run_naukri_chatbot e i 0 \<Longrightarrow> entropy e' i = entropy e i \<Longrightarrow>
   apply_one e' do_apply i job st = apply_one e do_apply i job st"
  by (simp add: apply_one_def Let_def split: attempt.splits)

lemma pending_write_cong:
  "run_naukri_chatbot e' i 0 = run_naukri_chatbot e i 0 \<Longrightarrow>
   pending_write e' do_apply i job = pending_write e do_apply i job"
  by (simp add: pending_write_def)

lemma apply_one_urls:
  assumes nb: "\<forall>rc out. run_naukri_chatbot e i 0 \<noteq> Exited rc out True"
  shows "mset (map url (applied_jobs (apply_one e do_apply i job st)))
     + mset (map url (failed_jobs (apply_one e do_apply i job st)))
   = mset (map url (applied_jobs st)) + mset (map url (failed_jobs st)) + {#url job#}"
proof (cases do_apply)
  case False
  then show ?thesis by (simp add: apply_one_def)
next
  case True
  have f: "attempt_failures (run_naukri_chatbot e i 0)
             = (if attempt_succeeds (run_naukri_chatbot e i 0) then 0 else 1)"
    using nb by (cases "run_naukri_chatbot e i 0") auto
  have a: "mset (map url (applied_jobs (apply_one e True i job st)))
             = mset (map url (applied_jobs st))
               + (if attempt_succeeds (run_naukri_chatbot e i 0) then {#url job#} else {#})"
    by (subst apply_one_applied_urls) simp
  have b: "mset (map url (failed_jobs (apply_one e True i job st)))
             = mset (map url (failed_jobs st))
               + (if attempt_succeeds (run_naukri_chatbot e i 0) then {#} else {#url job#})"
    by (subst apply_one_failed_urls) (simp add: f)
  from True have t: "do_apply = True" by simp
  show ?thesis
    using a b by (simp add: t)
qed

lemma apply_each_skipped:
  "skipped_jobs st = [] \<Longrightarrow> skipped_jobs (apply_each e do_apply i jobs st) = []"
  by (induction e do_apply i jobs st rule: apply_each.induct) (simp_all add: apply_one_skipped)

lemma upt_shift: "[i..<i + Suc n] = i # [Suc i..<Suc i + n]"
  by (subst upt_conv_Cons) simp_all

lemma apply_each_calls:
  "do_apply \<Longrightarrow>
   connector_calls (apply_each e do_apply i jobs st)
     = connector_calls st
       + length (filter (\<lambda>k. attempt_calls (run_naukri_chatbot e k 0)) [i..<i + length jobs])"
proof (induction e do_apply i jobs st rule: apply_each.induct)
  case (1 e do_apply i st)
  show ?case by simp
next
  case (2 e do_apply i job jobs st)
  from "2.prems" have t: "do_apply = True" by simp
  have u: "[i..<i + length (job # jobs)] = i # [Suc i..<Suc i + length jobs]"
    using upt_shift [of i "length jobs"] by simp
  show ?case
    unfolding u using "2.IH" [OF "2.prems"] by (simp add: t apply_one_calls)
qed

lemma apply_each_sleeps:
  "do_apply \<Longrightarrow>
   sleeps (apply_each e do_apply i jobs st)
     = sleeps st
       @ map (\<lambda>k. randint 5 10 (entropy e k))
           (filter (\<lambda>k. attempt_completes (run_naukri_chatbot e k 0)) [i..<i + length jobs])"
proof (induction e do_apply i jobs st rule: apply_each.induct)
  case (1 e do_apply i st)
  show ?case by simp
next
  case (2 e do_apply i job jobs st)
  from "2.prems" have t: "do_apply = True" by simp
  have u: "[i..<i + length (job # jobs)] = i # [Suc i..<Suc i + length jobs]"
    using upt_shift [of i "length jobs"] by simp
  show ?case
    unfolding u using "2.IH" [OF "2.prems"] by (simp add: t apply_one_sleeps)
qed

lemma apply_each_applied_urls:
  "do_apply \<Longrightarrow>
   map url (applied_jobs (apply_each e do_apply i jobs st))
     = map url (applied_jobs st)
       @ map snd (filter (\<lambda>(k, u). attempt_succeeds (run_naukri_chatbot e k 0))
                    (List.enumerate i (map url jobs)))"
proof (induction e do_apply i jobs st rule: apply_each.induct)
  case (1 e do_apply i st)
  show ?case by simp
next
  case (2 e do_apply i job jobs st)
  from "2.prems" have t: "do_apply = True" by simp
  show ?case
    using "2.IH" [OF "2.prems"]
    by (simp add: t apply_one_applied_urls url_comp_pending_write)
qed

lemma apply_each_failed_urls:
  "do_apply \<Longrightarrow>
   map url (failed_jobs (apply_each e do_apply i jobs st))
     = map url (failed_jobs st)
       @ concat (map (\<lambda>(k, u). replicate (attempt_failures (run_naukri_chatbot e k 0)) u)
                   (List.enumerate i (map url jobs)))"
proof (induction e do_apply i jobs st rule: apply_each.induct)
  case (1 e do_apply i st)
  show ?case by simp
next
  case (2 e do_apply i job jobs st)
  from "2.prems" have t: "do_apply = True" by simp
  show ?case
    using "2.IH" [OF "2.prems"]
    by (simp add: t apply_one_failed_urls url_comp_pending_write)
qed

lemma apply_each_cong:
  "\<forall>i. run_naukri_chatbot e' i 0 = run_naukri_chatbot e i 0 \<Longrightarrow> entropy e' = entropy e \<Longrightarrow>
   apply_each e' do_apply i jobs st = apply_each e do_apply i jobs st"
proof (induction e do_apply i jobs st rule: apply_each.induct)
  case (1 e do_apply i st)
  show ?case by simp
next
  case (2 e do_apply i job jobs st)
  have a: "apply_one e' do_apply i job st = apply_one e do_apply i job st"
    using "2.prems" by (intro apply_one_cong) simp_all
  have b: "pending_write e' do_apply i job = pending_write e do_apply i job"
    using "2.prems" by (intro pending_write_cong) simp
  from "2.IH" [OF "2.prems"] a b show ?case by simp
qed

lemma apply_each_urls:
  "\<forall>k < length jobs. \<forall>rc out. run_naukri_chatbot e (i + k) 0 \<noteq> Exited rc out True \<Longrightarrow>
   mset (map url (applied_jobs (apply_each e do_apply i jobs st)))
     + mset (map url (failed_jobs (apply_each e do_apply i jobs st)))
   = mset (map url (applied_jobs st)) + mset (map url (failed_jobs st)) + mset (map url jobs)"
proof (induction e do_apply i jobs st rule: apply_each.induct)
  case (1 e do_apply i st)
  show ?case by simp
next
  case (2 e do_apply i job jobs st)
  let ?st1 = "apply_one e do_apply i job st"
  let ?jobs1 = "map (pending_write e do_apply i job) jobs"
  have "0 < length (job # jobs)" by simp
  from "2.prems" [rule_format, OF this]
  have h0: "\<forall>rc out. run_naukri_chatbot e i 0 \<noteq> Exited rc out True" by simp
  have "\<forall>k < length ?jobs1. \<forall>rc out. run_naukri_chatbot e (Suc i + k) 0 \<noteq> Exited rc out True"
  proof (intro allI impI)
    fix k rc out assume "k < length ?jobs1"
    then have "Suc k < length (job # jobs)" by simp
    from "2.prems" [rule_format, OF this]
    show "run_naukri_chatbot e (Suc i + k) 0 \<noteq> Exited rc out True"
      by simp
  qed
  from "2.IH" [OF this]
  have "mset (map url (applied_jobs (apply_each e do_apply i (job # jobs) st)))
          + mset (map url (failed_jobs (apply_each e do_apply i (job # jobs) st)))
        = (mset (map url (applied_jobs ?st1)) + mset (map url (failed_jobs ?st1)))
          + mset (map url ?jobs1)"
    by simp
  also have "\<dots> = (mset (map url (applied_jobs st)) + mset (map url (failed_jobs st)) + {#url job#})
          + mset (map url ?jobs1)"
    by (simp only: apply_one_urls [OF h0])
  also have "\<dots> = mset (map url (applied_jobs st)) + mset (map url (failed_jobs st))
          + mset (map url (job # jobs))"
    by (simp only: map_url_pending_write) simp
  finally show ?case .
qed

subsection \<open>Sharing of the details dictionaries\<close>

text \<open>
  Ranked jobs that hold the same details dictionary show the same content. The loop keeps
  it so: a write reaches every holder, on the lists and among the jobs still waiting.
\<close>

lemma details_id_store_method: "details_id (store_method apply_method d job) = details_id job"
  by (simp add: store_method_def split: option.splits)

lemma shares_consistently_store_method:
  assumes "shares_consistently jobs"
  shows "shares_consistently (map (store_method apply_method d) jobs)"
proof (cases apply_method)
  case None
  then have "map (store_method apply_method d) jobs = jobs"
    by (simp add: store_method_def map_idI)
  with assms show ?thesis by simp
next
  case (Some m)
  show ?thesis
    unfolding shares_consistently_def
  proof (intro ballI impI)
    fix a b
    assume a: "a \<in> set (map (store_method apply_method d) jobs)"
      and b: "b \<in> set (map (store_method apply_method d) jobs)"
      and eq: "details_id a = details_id b"
    from a obtain a0 where a0: "a0 \<in> set jobs" "a = store_method apply_method d a0" by auto
    from b obtain b0 where b0: "b0 \<in> set jobs" "b = store_method apply_method d b0" by auto
    from eq have ids: "details_id a0 = details_id b0"
      unfolding a0(2) b0(2) by (simp add: details_id_store_method)
    from assms a0(1) b0(1) ids have same: "details a0 = details b0"
      unfolding shares_consistently_def by blast
    show "details a = details b"
      unfolding a0(2) b0(2) using ids same by (simp add: store_method_def Some)
  qed
qed

lemma shares_consistently_subset:
  "shares_consistently jobs \<Longrightarrow> set jobs' \<subseteq> set jobs \<Longrightarrow> shares_consistently jobs'"
  unfolding shares_consistently_def by blast

lemma apply_one_applied_holders:
  "set (applied_jobs (apply_one e do_apply i job st))
   \<subseteq> set (map (pending_write e do_apply i job) (applied_jobs st @ [job]))"
proof (cases do_apply)
  case False
  then show ?thesis by (auto simp: apply_one_def pending_write_def)
next
  case True
  then show ?thesis
    by (cases "run_naukri_chatbot e i 0") (auto simp: apply_one_def pending_write_def Let_def)
qed

lemma apply_one_failed_holders:
  "set (failed_jobs (apply_one e do_apply i job st))
   \<subseteq> set (map (pending_write e do_apply i job) (failed_jobs st @ [job]))"
proof (cases do_apply)
  case False
  then show ?thesis by (auto simp: apply_one_def pending_write_def)
next
  case True
  then show ?thesis
    by (cases "run_naukri_chatbot e i 0") (auto simp: apply_one_def pending_write_def Let_def)
qed

lemma apply_one_skipped_holders:
  "set (skipped_jobs (apply_one e do_apply i job st))
   \<subseteq> set (map (pending_write e do_apply i job) (skipped_jobs st))"
proof (cases do_apply)
  case False
  then show ?thesis by (auto simp: apply_one_def pending_write_def)
next
  case True
  then show ?thesis
    by (cases "run_naukri_chatbot e i 0") (auto simp: apply_one_def pending_write_def Let_def)
qed

lemma apply_one_holders:
  "set (applied_jobs (apply_one e do_apply i job st) @ failed_jobs (apply_one e do_apply i job st)
        @ skipped_jobs (apply_one e do_apply i job st) @ map (pending_write e do_apply i job) jobs)
   \<subseteq> set (map (pending_write e do_apply i job)
             (applied_jobs st @ failed_jobs st @ skipped_jobs st @ job # jobs))"
proof -
  let ?w = "pending_write e do_apply i job"
  have a: "set (applied_jobs (apply_one e do_apply i job st))
             \<subseteq> ?w ` set (applied_jobs st) \<union> {?w job}"
    using apply_one_applied_holders [of e do_apply i job st] by simp
  have f: "set (failed_jobs (apply_one e do_apply i job st))
             \<subseteq> ?w ` set (failed_jobs st) \<union> {?w job}"
    using apply_one_failed_holders [of e do_apply i job st] by simp
  have s: "set (skipped_jobs (apply_one e do_apply i job st)) \<subseteq> ?w ` set (skipped_jobs st)"
    using apply_one_skipped_holders [of e do_apply i job st] by simp
  have "set (applied_jobs (apply_one e do_apply i job st) @ failed_jobs (apply_one e do_apply i job st)
        @ skipped_jobs (apply_one e do_apply i job st) @ map ?w jobs)
      = set (applied_jobs (apply_one e do_apply i job st))
        \<union> set (failed_jobs (apply_one e do_apply i job st))
        \<union> set (skipped_jobs (apply_one e do_apply i job st)) \<union> ?w ` set jobs"
    by (simp add: Un_assoc)
  also have "\<dots> \<subseteq> (?w ` set (applied_jobs st) \<union> {?w job})
        \<union> (?w ` set (failed_jobs st) \<union> {?w job})
        \<union> ?w ` set (skipped_jobs st) \<union> ?w ` set jobs"
    using a f s by blast
  also have "\<dots> = set (map ?w (applied_jobs st @ failed_jobs st @ skipped_jobs st @ job # jobs))"
    by auto
  finally show ?thesis .
qed

lemma shares_consistently_pending_write:
  "shares_consistently jobs \<Longrightarrow> shares_consistently (map (pending_write e do_apply i job) jobs)"
  by (cases "run_naukri_chatbot e i 0")
     (simp_all add: pending_write_def shares_consistently_store_method)

lemma apply_each_shares_consistently:
  "shares_consistently (applied_jobs st @ failed_jobs st @ skipped_jobs st @ jobs) \<Longrightarrow>
   shares_consistently (applied_jobs (apply_each e do_apply i jobs st)
                        @ failed_jobs (apply_each e do_apply i jobs st)
                        @ skipped_jobs (apply_each e do_apply i jobs st))"
proof (induction e do_apply i jobs st rule: apply_each.induct)
  case (1 e do_apply i st)
  then show ?case by simp
next
  case (2 e do_apply i job jobs st)
  let ?st1 = "apply_one e do_apply i job st"
  let ?jobs1 = "map (pending_write e do_apply i job) jobs"
  have "shares_consistently (map (pending_write e do_apply i job)
          (applied_jobs st @ failed_jobs st @ skipped_jobs st @ job # jobs))"
    using "2.prems" by (rule shares_consistently_pending_write)
  then have "shares_consistently (applied_jobs ?st1 @ failed_jobs ?st1 @ skipped_jobs ?st1 @ ?jobs1)"
    using apply_one_holders by (rule shares_consistently_subset)
  from "2.IH" [OF this] show ?case by simp
qed

subsection \<open>One attempt per job\<close>

text \<open>
  C7 (amended): in the regular loop every job gets one apply attempt and there is no
  retry. The subprocess is called once for each job, never more, and not at all for a
  job whose attempt raises an exception before the call is reached; what a second call
  would do is never looked at. An attempt that exits with code 0 puts the job on the applied list; an
  attempt that exits with another code, or raises an exception, puts the job on the
  failed list at once (an exception raised after the outcome was recorded puts it there
  as well). After every attempt that completes without an exception, successful or not,
  the loop pauses for a random 5 to 10 seconds before the next job; these are the only
  waits. Jobs are named by their URLs, in the order of the ranked list.
\<close>

theorem single_attempt_no_retry:
  "connector_calls (regular_apply e True ranked_jobs)
     = length (filter (\<lambda>i. attempt_calls (run_naukri_chatbot e i 0)) [0..<length ranked_jobs])
   \<and> connector_calls (apply_one e True k job st) \<le> connector_calls st + 1
   \<and> map url (applied_jobs (regular_apply e True ranked_jobs))
       = map snd (filter (\<lambda>(i, u). attempt_succeeds (run_naukri_chatbot e i 0))
                    (List.enumerate 0 (map url ranked_jobs)))
   \<and> map url (failed_jobs (regular_apply e True ranked_jobs))
       = concat (map (\<lambda>(i, u). replicate (attempt_failures (run_naukri_chatbot e i 0)) u)
                   (List.enumerate 0 (map url ranked_jobs)))
   \<and> sleeps (regular_apply e True ranked_jobs)
       = map (\<lambda>i. randint 5 10 (entropy e i))
           (filter (\<lambda>i. attempt_completes (run_naukri_chatbot e i 0)) [0..<length ranked_jobs])
   \<and> 5 \<le> randint 5 10 r \<and> randint 5 10 r \<le> 10
   \<and> ((\<forall>i. run_naukri_chatbot e' i 0 = run_naukri_chatbot e i 0) \<and> entropy e' = entropy e
         \<longrightarrow> regular_apply e' do_apply ranked_jobs = regular_apply e do_apply ranked_jobs)"
proof -
  have a: "connector_calls (regular_apply e True ranked_jobs)
     = length (filter (\<lambda>i. attempt_calls (run_naukri_chatbot e i 0)) [0..<length ranked_jobs])"
    using apply_each_calls [of True e 0 ranked_jobs init_state]
    by (simp add: regular_apply_def init_state_def)
  have b: "map url (applied_jobs (regular_apply e True ranked_jobs))
       = map snd (filter (\<lambda>(i, u). attempt_succeeds (run_naukri_chatbot e i 0))
                    (List.enumerate 0 (map url ranked_jobs)))"
    using apply_each_applied_urls [of True e 0 ranked_jobs init_state]
    by (simp add: regular_apply_def init_state_def)
  have c: "map url (failed_jobs (regular_apply e True ranked_jobs))
       = concat (map (\<lambda>(i, u). replicate (attempt_failures (run_naukri_chatbot e i 0)) u)
                   (List.enumerate 0 (map url ranked_jobs)))"
    using apply_each_failed_urls [of True e 0 ranked_jobs init_state]
    by (simp add: regular_apply_def init_state_def)
  have d: "sleeps (regular_apply e True ranked_jobs)
       = map (\<lambda>i. randint 5 10 (entropy e i))
           (filter (\<lambda>i. attempt_completes (run_naukri_chatbot e i 0)) [0..<length ranked_jobs])"
    using apply_each_sleeps [of True e 0 ranked_jobs init_state]
    by (simp add: regular_apply_def init_state_def)
  have f: "(\<forall>i. run_naukri_chatbot e' i 0 = run_naukri_chatbot e i 0) \<and> entropy e' = entropy e
         \<longrightarrow> regular_apply e' do_apply ranked_jobs = regular_apply e do_apply ranked_jobs"
    by (simp add: regular_apply_def apply_each_cong)
  have g: "connector_calls (apply_one e True k job st) \<le> connector_calls st + 1"
    by (simp add: apply_one_calls)
  from a g b c d f randint_5_10 [of r] show ?thesis by blast
qed

text \<open>
  C7 as stated fails: the first attempt for the job times out and a second attempt would
  succeed, yet the subprocess is called once only and the job is settled as failed.
\<close>

theorem retry_counterexample:
  "run_naukri_chatbot flaky_env 0 0 = Exited 1 ''TimeoutException'' False
   \<and> run_naukri_chatbot flaky_env 0 1 = Exited 0 ''Applied using direct apply'' False
   \<and> connector_calls (regular_apply flaky_env True [tester_job]) = 1
   \<and> failed_jobs (regular_apply flaky_env True [tester_job]) = [tester_job]
   \<and> applied_jobs (regular_apply flaky_env True [tester_job]) = []"
  by (simp add: regular_apply_def apply_one_def flaky_env_def init_state_def Let_def
      parse_apply_method_def store_method_def)

text \<open>
  An instance with four jobs whose attempts are of the four kinds: three calls, the
  fourth job applied, the first three failed, a pause after the third and the fourth
  attempt only; an environment that differs only in later attempts gives the same result.
\<close>

theorem single_attempt_no_retry_witness:
  "connector_calls (regular_apply varied_env True four_jobs) = 3
   \<and> map url (applied_jobs (regular_apply varied_env True four_jobs)) = [''https://jobs.example/J4'']
   \<and> map url (failed_jobs (regular_apply varied_env True four_jobs))
       = [''https://jobs.example/J1'', ''https://jobs.example/J2'', ''https://jobs.example/J3'']
   \<and> sleeps (regular_apply varied_env True four_jobs) = [7, 8]
   \<and> entropy hopeless_env = entropy flaky_env
   \<and> regular_apply hopeless_env True [tester_job] = regular_apply flaky_env True [tester_job]"
proof -
  note t = single_attempt_no_retry [where e = varied_env and ranked_jobs = four_jobs]
  note t1 = t [THEN conjunct1]
  note t2 = t [THEN conjunct2, THEN conjunct2, THEN conjunct1]
  note t3 = t [THEN conjunct2, THEN conjunct2, THEN conjunct2, THEN conjunct1]
  note t4 = t [THEN conjunct2, THEN conjunct2, THEN conjunct2, THEN conjunct2, THEN conjunct1]
  have a: "connector_calls (regular_apply varied_env True four_jobs) = 3"
    unfolding t1 by code_simp
  have b: "map url (applied_jobs (regular_apply varied_env True four_jobs))
             = [''https://jobs.example/J4'']"
    unfolding t2 by code_simp
  have c: "map url (failed_jobs (regular_apply varied_env True four_jobs))
       = [''https://jobs.example/J1'', ''https://jobs.example/J2'', ''https://jobs.example/J3'']"
    unfolding t3 by code_simp
  have d: "sleeps (regular_apply varied_env True four_jobs) = [7, 8]"
    unfolding t4 by code_simp
  have h2: "\<forall>i. run_naukri_chatbot hopeless_env i 0 = run_naukri_chatbot flaky_env i 0"
    by (simp add: flaky_env_def hopeless_env_def)
  have h3: "entropy hopeless_env = entropy flaky_env"
    by (simp add: flaky_env_def hopeless_env_def)
  note u = single_attempt_no_retry [where e = flaky_env and ranked_jobs = "[tester_job]"
      and e' = hopeless_env and do_apply = True]
  note u7 = u [THEN conjunct2, THEN conjunct2, THEN conjunct2, THEN conjunct2,
      THEN conjunct2, THEN conjunct2, THEN conjunct2]
  from u7 h2 h3
  have eq: "regular_apply hopeless_env True [tester_job] = regular_apply flaky_env True [tester_job]"
    by (rule_tac mp) (rule u7, rule conjI, rule h2, rule h3)
  show ?thesis
    by (intro conjI) (rule a, rule b, rule c, rule d, rule h3, rule eq)
qed

subsection \<open>Applying again\<close>

text \<open>
  C5 (amended): applying to a job never looks at the job's earlier outcome. For every
  job and every state of the lists the subprocess is called once, unless an exception is
  raised before the call is reached, so the number of calls of a pass depends on the
  number of jobs alone and not on what was applied before. When the output of the run
  names a method, that method is written to the job's details dictionary and shows on
  every list entry that holds this dictionary; the method is \<^verbatim>\<open>already_applied\<close>
  exactly when the output contains "already applied" and neither "using chatbot" nor
  "using direct". When the output names no method, the method stored earlier stays. A
  run that exits with code 0 puts the job on the applied list, any other run on the
  failed list.
\<close>

theorem one_call_per_invocation:
  "connector_calls (apply_one e True i job st)
     = connector_calls st + (if attempt_calls (run_naukri_chatbot e i 0) then 1 else 0)
   \<and> (length jobs' = length jobs
        \<longrightarrow> connector_calls (regular_apply e True jobs') = connector_calls (regular_apply e True jobs))
   \<and> (parse_apply_method out = Some ''already_applied'')
       = (str_in ''already applied'' out \<and> \<not> str_in ''using chatbot'' out
          \<and> \<not> str_in ''using direct'' out)
   \<and> (run_naukri_chatbot e i 0 = Exited rc out bk
        \<longrightarrow> applied_jobs (apply_one e True i job st)
             = map (store_method (parse_apply_method out) (details_id job))
                 (applied_jobs st @ (if rc = 0 then [job] else []))
            \<and> failed_jobs (apply_one e True i job st)
             = map (store_method (parse_apply_method out) (details_id job))
                 (failed_jobs st @ (if rc = 0 then [] else [job]) @ (if bk then [job] else [])))
   \<and> application_method (details (store_method (Some m) d job))
       = (if details_id job = d then Some m else application_method (details job))
   \<and> store_method None d job = job"
proof -
  have a: "length jobs' = length jobs
        \<longrightarrow> connector_calls (regular_apply e True jobs') = connector_calls (regular_apply e True jobs)"
    using apply_each_calls [of True e 0 jobs init_state]
      apply_each_calls [of True e 0 jobs' init_state]
    by (simp add: regular_apply_def)
  have b: "(parse_apply_method out = Some ''already_applied'')
       = (str_in ''already applied'' out \<and> \<not> str_in ''using chatbot'' out
          \<and> \<not> str_in ''using direct'' out)"
    by (simp add: parse_apply_method_def)
  have c: "run_naukri_chatbot e i 0 = Exited rc out bk
        \<longrightarrow> applied_jobs (apply_one e True i job st)
             = map (store_method (parse_apply_method out) (details_id job))
                 (applied_jobs st @ (if rc = 0 then [job] else []))
            \<and> failed_jobs (apply_one e True i job st)
             = map (store_method (parse_apply_method out) (details_id job))
                 (failed_jobs st @ (if rc = 0 then [] else [job]) @ (if bk then [job] else []))"
    using apply_one_lists by blast
  have d: "application_method (details (store_method (Some m) d job))
       = (if details_id job = d then Some m else application_method (details job))"
    by (simp add: store_method_def)
  have e: "store_method None d job = job"
    by (simp add: store_method_def)
  from apply_one_calls [of e i job st] a b c d e show ?thesis by blast
qed

text \<open>
  C5 as stated fails: a job that the first pass has put on the applied list is applied
  to again; the second pass makes a second subprocess call and reports the method of
  that call, not \<^verbatim>\<open>already_applied\<close>.
\<close>

theorem reapply_counterexample:
  "map url (applied_jobs (regular_apply steady_env True [tester_job])) = [url tester_job]
   \<and> connector_calls (regular_apply steady_env True [tester_job]) = 1
   \<and> connector_calls (apply_each steady_env True 0
        (applied_jobs (regular_apply steady_env True [tester_job]))
        (regular_apply steady_env True [tester_job])) = 2
   \<and> map (\<lambda>job. application_method (details job))
        (applied_jobs (apply_each steady_env True 0
           (applied_jobs (regular_apply steady_env True [tester_job]))
           (regular_apply steady_env True [tester_job])))
      = [Some ''direct'', Some ''direct'']"
  by (simp add: regular_apply_def apply_one_def steady_env_def init_state_def Let_def
      parse_apply_method_def store_method_def)

lemma twin_attempts:
  "run_naukri_chatbot twin_env 0 0 = Exited 0 ''You have already applied'' False"
  "run_naukri_chatbot twin_env 1 0 = Exited 0 ''done'' False"
  by (simp_all add: twin_env_def)

lemma twin_first:
  "apply_one twin_env True 0 tester_job init_state
     = \<lparr>applied_jobs = [store_method (Some ''already_applied'') 3 tester_job], failed_jobs = [],
        skipped_jobs = [], connector_calls = 1, sleeps = [9]\<rparr>"
  by (simp add: apply_one_def twin_attempts init_state_def Let_def parse_apply_method_def
      randint_def twin_env_def tester_job_def example_job_def)

text \<open>
  An instance with the two entries that the keyword branch makes of one job: the first
  run reports an earlier application, the second names no method. Each run is a call;
  the second entry joins the first on the applied list, and both show the method of
  the first run.
\<close>

theorem one_call_per_invocation_witness:
  "run_naukri_chatbot twin_env 1 0 = Exited 0 ''done'' False
   \<and> parse_apply_method ''You have already applied'' = Some ''already_applied''
   \<and> parse_apply_method ''done'' = None
   \<and> connector_calls (apply_one twin_env True 1
         (store_method (Some ''already_applied'') 3 tester_job)
         (apply_one twin_env True 0 tester_job init_state)) = 2
   \<and> applied_jobs (apply_one twin_env True 1
         (store_method (Some ''already_applied'') 3 tester_job)
         (apply_one twin_env True 0 tester_job init_state))
      = [store_method (Some ''already_applied'') 3 tester_job,
         store_method (Some ''already_applied'') 3 tester_job]
   \<and> application_method (details (store_method (Some ''already_applied'') 3 tester_job))
       = Some ''already_applied''
   \<and> connector_calls (regular_apply twin_env True twin_jobs)
       = connector_calls (regular_apply twin_env True [tester_job, tester_job])"
proof -
  let ?j = "store_method (Some ''already_applied'') 3 tester_job"
  let ?st = "apply_one twin_env True 0 tester_job init_state"
  have r: "run_naukri_chatbot twin_env 1 0 = Exited 0 ''done'' False"
    by (simp add: twin_env_def)
  have p1: "parse_apply_method ''You have already applied'' = Some ''already_applied''"
    by (simp add: parse_apply_method_def)
  have p2: "parse_apply_method ''done'' = None"
    by (simp add: parse_apply_method_def)
  have id3: "details_id tester_job = 3"
    by (simp add: tester_job_def example_job_def)
  have st1: "connector_calls ?st = 1"
    by (simp add: twin_first)
  have st2: "applied_jobs ?st = [?j]"
    by (simp add: twin_first)
  have len: "length twin_jobs = length [tester_job, tester_job]"
    by (simp add: twin_jobs_def)
  note t = one_call_per_invocation [where e = twin_env and i = 1 and job = ?j and st = ?st
      and jobs' = twin_jobs and jobs = "[tester_job, tester_job]" and out = "''done''"
      and rc = 0 and bk = False and m = "''already_applied''" and d = 3]
  note t1 = t [THEN conjunct1]
  note t2 = t [THEN conjunct2, THEN conjunct1]
  note t4 = t [THEN conjunct2, THEN conjunct2, THEN conjunct2, THEN conjunct1]
  note t6 = t [THEN conjunct2, THEN conjunct2, THEN conjunct2, THEN conjunct2, THEN conjunct2]
  note v = one_call_per_invocation [where e = twin_env and i = 1 and job = tester_job
      and st = ?st and jobs' = twin_jobs and jobs = "[tester_job, tester_job]"
      and out = "''done''" and rc = 0 and bk = False and m = "''already_applied''" and d = 3]
  note v5 = v [THEN conjunct2, THEN conjunct2, THEN conjunct2, THEN conjunct2, THEN conjunct1]
  have c: "connector_calls (apply_one twin_env True 1 ?j ?st) = 2"
    unfolding t1 using r st1 by simp
  from t4 r
  have "applied_jobs (apply_one twin_env True 1 ?j ?st)
          = map (store_method (parse_apply_method ''done'') (details_id ?j)) (applied_jobs ?st @ [?j])"
    by simp
  then have a: "applied_jobs (apply_one twin_env True 1 ?j ?st) = [?j, ?j]"
    by (simp add: p2 st2 t6 details_id_store_method id3)
  have m: "application_method (details ?j) = Some ''already_applied''"
    unfolding v5 by (simp add: id3)
  from t2 len have n: "connector_calls (regular_apply twin_env True twin_jobs)
       = connector_calls (regular_apply twin_env True [tester_job, tester_job])"
    by (rule mp)
  show ?thesis
    by (intro conjI) (rule r, rule p1, rule p2, rule c, rule a, rule m, rule n)
qed

section \<open>Properties of bulk mode\<close>

lemma five_direct: "direct_apply_jobs five_jobs = five_jobs"
  by (simp add: direct_apply_jobs_def five_jobs_def example_job_def get_default_def)

text \<open>
  C1 (amended): in bulk mode the outcome lists are read off the result list taken from
  the worker: the failed jobs are its entries whose \<^verbatim>\<open>applied\<close> flag is not true, the
  applied jobs its entries whose flag is true. Only when no usable result list comes back
  (it is missing, empty or not a list) are all submitted jobs recorded as failed.
  \<^verbatim>\<open>failed_count\<close> is the length of the failed list. Results are not matched to the
  submitted jobs.
\<close>

theorem bulk_counts_follow_results:
  "(direct_apply_jobs ranked_jobs \<noteq> [] \<and> load_results e = JList results \<and> results \<noteq> [] \<longrightarrow>
      applied_jobs (bulk_apply e ranked_jobs) = filter (\<lambda>job. get_default (applied job) False) results
      \<and> failed_jobs (bulk_apply e ranked_jobs) = filter (\<lambda>job. \<not> get_default (applied job) False) results
      \<and> skipped_jobs (bulk_apply e ranked_jobs) = [])
   \<and> (direct_apply_jobs ranked_jobs \<noteq> [] \<and> (\<forall>rs. load_results e = JList rs \<longrightarrow> rs = []) \<longrightarrow>
      applied_jobs (bulk_apply e ranked_jobs) = []
      \<and> failed_jobs (bulk_apply e ranked_jobs)
          = map (\<lambda>job. job\<lparr>applied := Some False\<rparr>) (direct_apply_jobs ranked_jobs)
      \<and> skipped_jobs (bulk_apply e ranked_jobs) = [])
   \<and> failed_count (make_report (bulk_apply e ranked_jobs)) = length (failed_jobs (bulk_apply e ranked_jobs))"
proof -
  have a: "direct_apply_jobs ranked_jobs \<noteq> [] \<and> load_results e = JList results \<and> results \<noteq> [] \<longrightarrow>
      applied_jobs (bulk_apply e ranked_jobs) = filter (\<lambda>job. get_default (applied job) False) results
      \<and> failed_jobs (bulk_apply e ranked_jobs) = filter (\<lambda>job. \<not> get_default (applied job) False) results
      \<and> skipped_jobs (bulk_apply e ranked_jobs) = []"
    by (simp add: bulk_apply_def apply_to_multiple_jobs_def Let_def)
  have b: "direct_apply_jobs ranked_jobs \<noteq> [] \<and> (\<forall>rs. load_results e = JList rs \<longrightarrow> rs = []) \<longrightarrow>
      applied_jobs (bulk_apply e ranked_jobs) = []
      \<and> failed_jobs (bulk_apply e ranked_jobs)
          = map (\<lambda>job. job\<lparr>applied := Some False\<rparr>) (direct_apply_jobs ranked_jobs)
      \<and> skipped_jobs (bulk_apply e ranked_jobs) = []"
    by (cases "load_results e")
       (auto simp: bulk_apply_def apply_to_multiple_jobs_def Let_def get_default_def filter_empty_conv)
  have c: "failed_count (make_report (bulk_apply e ranked_jobs)) = length (failed_jobs (bulk_apply e ranked_jobs))"
    by (simp add: make_report_def)
  from a b c show ?thesis by blast
qed


text \<open>
  C1 as stated fails (Scenario C): five direct-apply jobs are submitted, the worker
  returns four results, all applied; the fifth job is on no list and the failed count
  stays 0.
\<close>

theorem missing_result_counterexample:
  "length (direct_apply_jobs five_jobs) = 5
   \<and> load_results bulk_env = JList four_results \<and> length four_results = 4
   \<and> failed_jobs (bulk_apply bulk_env five_jobs) = []
   \<and> failed_count (make_report (bulk_apply bulk_env five_jobs)) = 0
   \<and> applied_count (make_report (bulk_apply bulk_env five_jobs)) = 4
   \<and> skipped_count (make_report (bulk_apply bulk_env five_jobs)) = 0"
  by (simp add: five_direct bulk_apply_def apply_to_multiple_jobs_def Let_def bulk_env_def
      steady_env_def four_results_def make_report_def get_default_def)
     (simp add: five_jobs_def)

text \<open>
  Two instances: a worker that returns a list, and a run without a results file.
\<close>

theorem bulk_counts_follow_results_witness:
  "direct_apply_jobs five_jobs \<noteq> [] \<and> load_results bulk_env = JList four_results \<and> four_results \<noteq> []
   \<and> failed_jobs (bulk_apply bulk_env five_jobs)
       = filter (\<lambda>job. \<not> get_default (applied job) False) four_results
   \<and> load_results steady_env = JNone
   \<and> failed_jobs (bulk_apply steady_env five_jobs)
       = map (\<lambda>job. job\<lparr>applied := Some False\<rparr>) (direct_apply_jobs five_jobs)
   \<and> applied_jobs (bulk_apply steady_env five_jobs) = []"
proof -
  have h1: "direct_apply_jobs five_jobs \<noteq> []"
    by (simp add: five_direct) (simp add: five_jobs_def)
  have h2: "load_results bulk_env = JList four_results"
    by (simp add: bulk_env_def)
  have h3: "four_results \<noteq> []"
    by (simp add: four_results_def five_jobs_def)
  have h4: "load_results steady_env = JNone"
    by (simp add: steady_env_def)
  from bulk_counts_follow_results [of five_jobs bulk_env four_results]
       bulk_counts_follow_results [of five_jobs steady_env "[]"] h1 h2 h3 h4
  show ?thesis by simp
qed

section \<open>Properties of the report\<close>

lemma regular_apply_urls:
  assumes "\<forall>i < length ranked_jobs. \<forall>rc out. run_naukri_chatbot e i 0 \<noteq> Exited rc out True"
  shows "mset (map url (applied_jobs (regular_apply e do_apply ranked_jobs)))
           + mset (map url (failed_jobs (regular_apply e do_apply ranked_jobs)))
         = mset (map url ranked_jobs)"
  using apply_each_urls [of ranked_jobs e 0 do_apply init_state] assms
  by (simp add: regular_apply_def init_state_def)

lemma regular_apply_count:
  assumes "\<forall>i < length ranked_jobs. \<forall>rc out. run_naukri_chatbot e i 0 \<noteq> Exited rc out True"
  shows "length (applied_jobs (regular_apply e do_apply ranked_jobs))
           + length (failed_jobs (regular_apply e do_apply ranked_jobs))
         = length ranked_jobs"
proof -
  have "size (mset (map url (applied_jobs (regular_apply e do_apply ranked_jobs)))
           + mset (map url (failed_jobs (regular_apply e do_apply ranked_jobs))))
         = size (mset (map url ranked_jobs))"
    by (simp only: regular_apply_urls [OF assms])
  then show ?thesis by simp
qed

lemma regular_apply_skipped: "skipped_jobs (regular_apply e do_apply ranked_jobs) = []"
  unfolding regular_apply_def by (rule apply_each_skipped) (simp add: init_state_def)

lemma entry_url_comp: "entry_url \<circ> report_entry_of = url"
  by (rule ext) (simp add: report_entry_of_def)


lemma bulk_apply_count:
  "length (applied_jobs (bulk_apply e ranked_jobs)) + length (failed_jobs (bulk_apply e ranked_jobs))
     + length (skipped_jobs (bulk_apply e ranked_jobs))
   = (if direct_apply_jobs ranked_jobs = [] then length ranked_jobs
      else length (apply_to_multiple_jobs (direct_apply_jobs ranked_jobs) (load_results e)))"
proof (cases "direct_apply_jobs ranked_jobs = []")
  case True
  then show ?thesis by (simp add: bulk_apply_def)
next
  case False
  let ?rs = "apply_to_multiple_jobs (direct_apply_jobs ranked_jobs) (load_results e)"
  show ?thesis
  proof (cases "?rs = []")
    case True
    with False have "direct_apply_jobs ranked_jobs = []"
      by (auto simp: apply_to_multiple_jobs_def split: loaded_results.splits if_splits)
    with False show ?thesis by simp
  next
    case nonempty: False
    have "length (filter (\<lambda>job. get_default (applied job) False) ?rs)
            + length (filter (\<lambda>job. \<not> get_default (applied job) False) ?rs) = length ?rs"
      by (rule sum_length_filter_compl)
    with False nonempty show ?thesis by (simp add: bulk_apply_def Let_def)
  qed
qed

text \<open>
  C2 (amended): for a run that produces a report, the three counts add up to the number
  of jobs that entered the apply phase in regular mode, provided no exception is raised
  after a job's outcome was recorded, and then every job is, by its URL, on exactly one
  of the applied and failed lists; in bulk mode without a direct-apply job all jobs are
  skipped; in bulk mode with direct-apply jobs the counts add up to the length of the
  result list taken from the worker.
\<close>

theorem report_accounting:
  assumes "snd (apply_phase e a ranked_jobs) = Some r"
  shows "(\<not> auto_apply a
            \<and> (\<forall>i < length ranked_jobs. \<forall>rc out. run_naukri_chatbot e i 0 \<noteq> Exited rc out True)
          \<longrightarrow> applied_count r + failed_count r + skipped_count r = length ranked_jobs
              \<and> mset (map entry_url (report_applied_jobs r)) + mset (map entry_url (report_failed_jobs r))
                  = mset (map url ranked_jobs))
       \<and> (auto_apply a \<and> direct_apply_jobs ranked_jobs = []
          \<longrightarrow> skipped_count r = length ranked_jobs \<and> applied_count r = 0 \<and> failed_count r = 0)
       \<and> (auto_apply a \<and> direct_apply_jobs ranked_jobs \<noteq> []
          \<longrightarrow> applied_count r + failed_count r + skipped_count r
                = length (apply_to_multiple_jobs (direct_apply_jobs ranked_jobs) (load_results e)))"
proof -
  have reg: "applied_count r + failed_count r + skipped_count r = length ranked_jobs
              \<and> mset (map entry_url (report_applied_jobs r)) + mset (map entry_url (report_failed_jobs r))
                  = mset (map url ranked_jobs)"
    if na: "\<not> auto_apply a"
      and nb: "\<forall>i < length ranked_jobs. \<forall>rc out. run_naukri_chatbot e i 0 \<noteq> Exited rc out True"
  proof -
    from assms na have r: "r = make_report (regular_apply e (apply_flag a) ranked_jobs)"
      by (auto simp: apply_phase_def split: if_splits)
    show ?thesis
      unfolding r
      using regular_apply_count [OF nb, of "apply_flag a"] regular_apply_urls [OF nb, of "apply_flag a"]
      by (simp add: make_report_def regular_apply_skipped entry_url_comp)
  qed
  have bulk: "r = make_report (bulk_apply e ranked_jobs)" if "auto_apply a"
    using assms that by (auto simp: apply_phase_def split: if_splits)
  have b1: "skipped_count r = length ranked_jobs \<and> applied_count r = 0 \<and> failed_count r = 0"
    if "auto_apply a" "direct_apply_jobs ranked_jobs = []"
    using that by (simp add: bulk make_report_def bulk_apply_def)
  have b2: "applied_count r + failed_count r + skipped_count r
                = length (apply_to_multiple_jobs (direct_apply_jobs ranked_jobs) (load_results e))"
    if "auto_apply a" "direct_apply_jobs ranked_jobs \<noteq> []"
    using that bulk_apply_count [of e ranked_jobs] by (simp add: bulk make_report_def)
  from reg b1 b2 show ?thesis by blast
qed

text \<open>
  C2 as stated fails: in bulk mode two jobs enter the phase, one of them of apply type
  \<^verbatim>\<open>company_site\<close>; the worker handles the direct one and the counts add up to 1.
\<close>

theorem accounting_counterexample:
  "reaches_apply_phase bulk_args mixed_jobs \<and> length mixed_jobs = 2
   \<and> apply_phase mixed_env bulk_args mixed_jobs = (0, Some (make_report (bulk_apply mixed_env mixed_jobs)))
   \<and> applied_count (make_report (bulk_apply mixed_env mixed_jobs))
       + failed_count (make_report (bulk_apply mixed_env mixed_jobs))
       + skipped_count (make_report (bulk_apply mixed_env mixed_jobs)) = 1"
  by (simp add: reaches_apply_phase_def bulk_args_def mixed_jobs_def apply_phase_def mixed_env_def
      steady_env_def make_report_def bulk_apply_def direct_apply_jobs_def example_job_def
      get_default_def apply_to_multiple_jobs_def Let_def)

text \<open>
  Three instances: the regular loop over five jobs, bulk mode without a direct-apply
  job, and bulk mode with a worker that returns four results for five jobs.
\<close>

theorem report_accounting_witness:
  "snd (apply_phase steady_env regular_args five_jobs)
     = Some (make_report (regular_apply steady_env True five_jobs))
   \<and> \<not> auto_apply regular_args
   \<and> applied_count (make_report (regular_apply steady_env True five_jobs))
       + failed_count (make_report (regular_apply steady_env True five_jobs))
       + skipped_count (make_report (regular_apply steady_env True five_jobs)) = length five_jobs
   \<and> snd (apply_phase steady_env bulk_args [example_job 2 ''J2'' 8 ''company_site''])
     = Some (make_report (bulk_apply steady_env [example_job 2 ''J2'' 8 ''company_site'']))
   \<and> direct_apply_jobs [example_job 2 ''J2'' 8 ''company_site''] = []
   \<and> skipped_count (make_report (bulk_apply steady_env [example_job 2 ''J2'' 8 ''company_site''])) = 1
   \<and> snd (apply_phase bulk_env bulk_args five_jobs) = Some (make_report (bulk_apply bulk_env five_jobs))
   \<and> direct_apply_jobs five_jobs \<noteq> []
   \<and> applied_count (make_report (bulk_apply bulk_env five_jobs))
       + failed_count (make_report (bulk_apply bulk_env five_jobs))
       + skipped_count (make_report (bulk_apply bulk_env five_jobs)) = 4"
proof -
  have ne: "five_jobs \<noteq> []" by (simp add: five_jobs_def)
  have p1: "snd (apply_phase steady_env regular_args five_jobs)
              = Some (make_report (regular_apply steady_env True five_jobs))"
    using ne by (simp add: apply_phase_def reaches_apply_phase_def regular_args_def steady_env_def)
  have q1: "\<not> auto_apply regular_args" by (simp add: regular_args_def)
  have q2: "\<forall>i < length five_jobs. \<forall>rc out.
              run_naukri_chatbot steady_env i 0 \<noteq> Exited rc out True"
    by (simp add: steady_env_def)
  have p2: "snd (apply_phase steady_env bulk_args [example_job 2 ''J2'' 8 ''company_site''])
              = Some (make_report (bulk_apply steady_env [example_job 2 ''J2'' 8 ''company_site'']))"
    by (simp add: apply_phase_def reaches_apply_phase_def bulk_args_def steady_env_def)
  have q3: "direct_apply_jobs [example_job 2 ''J2'' 8 ''company_site''] = []"
    by (simp add: direct_apply_jobs_def example_job_def get_default_def)
  have q4: "auto_apply bulk_args" by (simp add: bulk_args_def)
  have p3: "snd (apply_phase bulk_env bulk_args five_jobs)
              = Some (make_report (bulk_apply bulk_env five_jobs))"
    using ne by (simp add: apply_phase_def reaches_apply_phase_def bulk_args_def bulk_env_def
        steady_env_def)
  have q5: "direct_apply_jobs five_jobs \<noteq> []"
    using ne by (simp add: five_direct)
  have q6: "length (apply_to_multiple_jobs (direct_apply_jobs five_jobs) (load_results bulk_env)) = 4"
    by (simp add: apply_to_multiple_jobs_def bulk_env_def four_results_def five_jobs_def)
  from report_accounting [OF p1] q1 q2
  have r1: "applied_count (make_report (regular_apply steady_env True five_jobs))
       + failed_count (make_report (regular_apply steady_env True five_jobs))
       + skipped_count (make_report (regular_apply steady_env True five_jobs)) = length five_jobs"
    by blast
  from report_accounting [OF p2] q3 q4
  have r2: "skipped_count (make_report (bulk_apply steady_env [example_job 2 ''J2'' 8 ''company_site''])) = 1"
    by simp
  from report_accounting [OF p3] q4 q5 q6
  have r3: "applied_count (make_report (bulk_apply bulk_env five_jobs))
       + failed_count (make_report (bulk_apply bulk_env five_jobs))
       + skipped_count (make_report (bulk_apply bulk_env five_jobs)) = 4"
    by simp
  from p1 q1 r1 p2 q3 r2 p3 q5 r3 show ?thesis by blast
qed

text \<open>
  C9 (amended): a run that reaches the apply phase produces a report exactly when the
  browser starts and, in regular mode, the login succeeds; otherwise it returns exit
  code 1 without a report. Failures of single jobs never prevent the report.
\<close>

theorem report_iff_browser_and_login:
  "reaches_apply_phase a ranked_jobs \<longrightarrow>
     (snd (apply_phase e a ranked_jobs) = None)
       = (\<not> start_browser e \<or> (\<not> auto_apply a \<and> \<not> ensure_logged_in e))
     \<and> (fst (apply_phase e a ranked_jobs) = 1) = (snd (apply_phase e a ranked_jobs) = None)
     \<and> (fst (apply_phase e a ranked_jobs) = 0) = (snd (apply_phase e a ranked_jobs) \<noteq> None)"
  by (simp add: apply_phase_def)

text \<open>
  C9 as stated fails: the run reaches the apply phase, the browser does not start, and
  \<^verbatim>\<open>main\<close> returns 1 without a report.
\<close>

theorem browser_failure_counterexample:
  "reaches_apply_phase regular_args [tester_job]
   \<and> apply_phase no_browser_env regular_args [tester_job] = (1, None)"
  by (simp add: reaches_apply_phase_def regular_args_def apply_phase_def no_browser_env_def
      steady_env_def)

text \<open>
  An instance: browser and login succeed, and the run ends with a report and exit code 0.
\<close>

theorem report_iff_browser_and_login_witness:
  "reaches_apply_phase regular_args [tester_job]
   \<and> start_browser steady_env \<and> ensure_logged_in steady_env
   \<and> snd (apply_phase steady_env regular_args [tester_job]) \<noteq> None
   \<and> fst (apply_phase steady_env regular_args [tester_job]) = 0"
proof -
  have h: "reaches_apply_phase regular_args [tester_job]"
    by (simp add: reaches_apply_phase_def regular_args_def)
  have b: "start_browser steady_env" "ensure_logged_in steady_env"
    by (simp_all add: steady_env_def)
  from report_iff_browser_and_login [of regular_args "[tester_job]" steady_env] h b
  show ?thesis by simp
qed

section \<open>Properties of the Selenium search\<close>

lemma total_sleep_append: "total_sleep (xs @ ys) = total_sleep xs + total_sleep ys"
  by (induction xs rule: total_sleep.induct) simp_all

lemma extract_pages_extends:
  "\<exists>rest. fst (extract_pages b max_jobs current_page job_links evs) = evs @ rest"
proof (induction b max_jobs current_page job_links evs rule: extract_pages.induct)
  case (1 b max_jobs current_page job_links evs)
  show ?case
  proof (cases "current_page \<le> max_pages \<and> job_cards b current_page \<noteq> []
                \<and> \<not> max_jobs \<le> length (job_links @ List.map_filter id (job_cards b current_page))
                \<and> current_page < max_pages \<and> click_next b current_page = NextClicked")
    case True
    from "1.IH" [OF _ refl _ refl refl refl _ _ ] True
    obtain rest where
      "fst (extract_pages b max_jobs (current_page + 1)
              (job_links @ List.map_filter id (job_cards b current_page))
              ((evs @ [ExtractPage current_page])
                 @ [SaveScreenshot, ClickNext current_page, Sleep 5, SaveScreenshot]))
       = ((evs @ [ExtractPage current_page])
                 @ [SaveScreenshot, ClickNext current_page, Sleep 5, SaveScreenshot]) @ rest"
      by auto
    with True show ?thesis
      by (subst extract_pages.simps) (simp add: Let_def)
  next
    case False
    then show ?thesis
      by (subst extract_pages.simps) (auto simp: Let_def split: next_click.splits)
  qed
qed

text \<open>
  C10: every run of the Selenium search that reaches the stage after the filters first
  sleeps 50,000,000 seconds, before any page of job links is extracted; the time slept
  in the stage is therefore at least 50,000,000 seconds, more than a year.
\<close>

theorem search_sleeps_before_extracting:
  "(\<exists>rest. fst (post_filter_stage b max_jobs) = Sleep 50000000 # rest)
   \<and> 50000000 \<le> total_sleep (fst (post_filter_stage b max_jobs))
   \<and> 365 * 86400 < total_sleep (fst (post_filter_stage b max_jobs))"
proof -
  obtain rest where r: "fst (post_filter_stage b max_jobs)
                          = [Sleep 50000000, SaveScreenshot, SaveScreenshot] @ rest"
    unfolding post_filter_stage_def using extract_pages_extends by blast
  then have "total_sleep (fst (post_filter_stage b max_jobs)) = 50000000 + total_sleep rest"
    by (simp add: total_sleep_append)
  with r show ?thesis by simp
qed

end
